theory Spec2Isabelle
  imports Complex_Main "HOL-Library.Word"
begin

section \<open>Errors and primitive types\<close>

text \<open>
  \<open>PRECICE_ASSERT\<close> and \<open>assertion\<close> abort the process when their condition is false
  (assertions are modelled as enabled); \<open>PRECICE_CHECK\<close> aborts with the given message.
  An access through a reference or an index that does not designate an element of the
  container it is resolved in is undefined behaviour in C++ and is an error of the model.
\<close>

datatype error = AssertionFailed | CheckFailed string | InvalidReference | OutOfBounds

text \<open>\<open>Eigen::VectorXd\<close>: a dynamically sized vector of doubles, modelled over the reals.\<close>

type_synonym VectorXd = "real list"

text \<open>\<open>std::size_t\<close> on the 64-bit targets the library is built for.\<close>

type_synonym SizeType = "64 word"

section \<open>Mesh value types\<close>

text \<open>
  The classes \<open>Vertex\<close>, \<open>Edge\<close>, \<open>Triangle\<close>, \<open>Quad\<close> and \<open>Data\<close> are used by
  \<open>Mesh.cpp\<close> through their accessors. A \<open>Vertex &\<close> held by an edge, and an \<open>Edge &\<close>
  held by a face, is the position of the referenced element in the container of the mesh
  (a \<open>std::deque\<close>, whose elements keep their addresses under \<open>emplace_back\<close>).
\<close>

record Vertex =
  vertex_coords :: VectorXd
  vertex_id :: int
  vertex_globalIndex :: int
  vertex_owner :: bool
  vertex_tagged :: bool
  vertex_normal :: VectorXd

record Edge =
  edge_vertices :: "nat \<times> nat"
  edge_id :: int
  edge_normal :: VectorXd

record Triangle =
  triangle_edges :: "nat \<times> nat \<times> nat"
  triangle_id :: int

record Quad =
  quad_edges :: "nat \<times> nat \<times> nat \<times> nat"
  quad_id :: int

record Data =
  data_name :: string
  data_id :: int
  data_dimensions :: int
  data_values :: VectorXd

record BoundingBox =
  bb_dimensions :: int
  bb_bounds :: "(real \<times> real) list"

record Mesh =
  mesh_name :: string
  mesh_dimensions :: int
  mesh_flipNormals :: bool
  mesh_id :: int
  mesh_vertices :: "Vertex list"
  mesh_edges :: "Edge list"
  mesh_triangles :: "Triangle list"
  mesh_quads :: "Quad list"
  mesh_data :: "Data list"
  mesh_manageVertexIDs :: int
  mesh_manageEdgeIDs :: int
  mesh_manageTriangleIDs :: int
  mesh_manageQuadIDs :: int
  mesh_boundingBox :: BoundingBox

subsection \<open>BoundingBox\<close>

text \<open>
  Modelled from the spec: the class \<open>BoundingBox\<close> (its header and implementation are
  not among the sources). "Axis-aligned min/max per dimension; supports expansion by
  vertex": the box keeps one (min, max) pair per dimension. A fresh box is empty: its
  minimum is the largest finite double and its maximum the lowest one.
\<close>

definition double_max :: real where
  "double_max = 2 ^ 1024 - 2 ^ 971"

definition BoundingBox_ctor :: "int \<Rightarrow> BoundingBox" where
  "BoundingBox_ctor dimension =
     \<lparr>bb_dimensions = dimension,
      bb_bounds = replicate (nat dimension) (double_max, - double_max)\<rparr>"

definition expandBy :: "Vertex \<Rightarrow> BoundingBox \<Rightarrow> BoundingBox" where
  "expandBy vertex bb =
     bb\<lparr>bb_bounds :=
          map (\<lambda>d. (min (vertex_coords vertex ! d) (fst (bb_bounds bb ! d)),
                    max (vertex_coords vertex ! d) (snd (bb_bounds bb ! d))))
              [0..<length (bb_bounds bb)]\<rparr>"

subsection \<open>Mesh construction and accessors\<close>

text \<open>\<open>Mesh::Mesh\<close>: both assertions of the constructor are branches of the model.\<close>

definition Mesh_ctor :: "string \<Rightarrow> int \<Rightarrow> bool \<Rightarrow> int \<Rightarrow> error + Mesh" where
  "Mesh_ctor name dimensions flipNormals ident =
     (if \<not> (dimensions = 2 \<or> dimensions = 3) then Inl AssertionFailed
      else if \<not> (name \<noteq> '''') then Inl AssertionFailed
      else Inr \<lparr>mesh_name = name, mesh_dimensions = dimensions,
                mesh_flipNormals = flipNormals, mesh_id = ident,
                mesh_vertices = [], mesh_edges = [], mesh_triangles = [],
                mesh_quads = [], mesh_data = [],
                mesh_manageVertexIDs = 0, mesh_manageEdgeIDs = 0,
                mesh_manageTriangleIDs = 0, mesh_manageQuadIDs = 0,
                mesh_boundingBox = BoundingBox_ctor dimensions\<rparr>)"

definition getDimensions :: "Mesh \<Rightarrow> int" where
  "getDimensions m = mesh_dimensions m"

subsection \<open>Identifiers and element constructors\<close>

text \<open>
  Modelled from the spec: \<open>utils::ManageUniqueIDs\<close> (not among the sources). "Edge and
  face ids are dense within the mesh": the manager is a counter, \<open>getFreeID\<close> hands out
  its value and advances it, \<open>resetIDs\<close> restarts it at 0.
\<close>

definition getFreeID :: "int \<Rightarrow> int \<times> int" where
  "getFreeID next_id = (next_id, next_id + 1)"

definition resetIDs :: "int \<Rightarrow> int" where
  "resetIDs next_id = 0"

text \<open>
  Modelled from the spec: the constructors of \<open>Vertex\<close>, \<open>Edge\<close>, \<open>Triangle\<close> and
  \<open>Quad\<close> (their classes are not among the sources). A new vertex has the given
  coordinates and id, no global index yet, is owned, is not tagged, and has a zero normal;
  an edge, a triangle and a quad reference the given elements and carry the given id.
\<close>

definition Vertex_ctor :: "VectorXd \<Rightarrow> int \<Rightarrow> Vertex" where
  "Vertex_ctor coords ident =
     \<lparr>vertex_coords = coords, vertex_id = ident, vertex_globalIndex = - 1,
      vertex_owner = True, vertex_tagged = False,
      vertex_normal = replicate (length coords) 0\<rparr>"

definition Edge_ctor :: "nat \<Rightarrow> nat \<Rightarrow> int \<Rightarrow> int \<Rightarrow> Edge" where
  "Edge_ctor vertexOne vertexTwo ident dimensions =
     \<lparr>edge_vertices = (vertexOne, vertexTwo), edge_id = ident,
      edge_normal = replicate (nat dimensions) 0\<rparr>"

definition Triangle_ctor :: "nat \<Rightarrow> nat \<Rightarrow> nat \<Rightarrow> int \<Rightarrow> Triangle" where
  "Triangle_ctor edgeOne edgeTwo edgeThree ident =
     \<lparr>triangle_edges = (edgeOne, edgeTwo, edgeThree), triangle_id = ident\<rparr>"

definition Quad_ctor :: "nat \<Rightarrow> nat \<Rightarrow> nat \<Rightarrow> nat \<Rightarrow> int \<Rightarrow> Quad" where
  "Quad_ctor edgeOne edgeTwo edgeThree edgeFour ident =
     \<lparr>quad_edges = (edgeOne, edgeTwo, edgeThree, edgeFour), quad_id = ident\<rparr>"

text \<open>Resolving a reference in the container it points into.\<close>

definition vertex_at :: "Vertex list \<Rightarrow> nat \<Rightarrow> error + Vertex" where
  "vertex_at vs r = (if r < length vs then Inr (vs ! r) else Inl InvalidReference)"

definition edge_at :: "Edge list \<Rightarrow> nat \<Rightarrow> error + Edge" where
  "edge_at es r = (if r < length es then Inr (es ! r) else Inl InvalidReference)"

text \<open>
  Modelled from the spec: \<open>Edge::connectedTo\<close> (not among the sources): two edges are
  connected when they share a vertex, that is, when one of the vertex references of the
  first is one of the vertex references of the second.
\<close>

definition connectedTo :: "Edge \<Rightarrow> Edge \<Rightarrow> bool" where
  "connectedTo e f =
     (fst (edge_vertices e) = fst (edge_vertices f)
    \<or> fst (edge_vertices e) = snd (edge_vertices f)
    \<or> snd (edge_vertices e) = fst (edge_vertices f)
    \<or> snd (edge_vertices e) = snd (edge_vertices f))"

subsection \<open>Creating vertices, edges and faces\<close>

text \<open>
  Modelled from the spec: \<open>Mesh::createVertex\<close> (a template of \<open>Mesh.hpp\<close>, which is not
  among the sources). The coordinates must have the dimensionality of the mesh; the new
  vertex gets the next free vertex id and is appended. The result is the changed mesh
  and the reference to the new vertex.
\<close>

definition createVertex :: "VectorXd \<Rightarrow> Mesh \<Rightarrow> error + Mesh \<times> nat" where
  "createVertex coords m =
     (if int (length coords) \<noteq> mesh_dimensions m then Inl AssertionFailed
      else let (ident, next_id) = getFreeID (mesh_manageVertexIDs m)
           in Inr (m\<lparr>mesh_vertices := mesh_vertices m @ [Vertex_ctor coords ident],
                     mesh_manageVertexIDs := next_id\<rparr>,
                   length (mesh_vertices m)))"

definition createEdge :: "nat \<Rightarrow> nat \<Rightarrow> Mesh \<Rightarrow> Mesh \<times> nat" where
  "createEdge vertexOne vertexTwo m =
     (let (ident, next_id) = getFreeID (mesh_manageEdgeIDs m)
      in (m\<lparr>mesh_edges :=
                mesh_edges m @ [Edge_ctor vertexOne vertexTwo ident (mesh_dimensions m)],
             mesh_manageEdgeIDs := next_id\<rparr>,
          length (mesh_edges m)))"

text \<open>\<open>std::is_permutation\<close> on two ranges of the same length.\<close>

fun is_permutation :: "int list \<Rightarrow> int list \<Rightarrow> bool" where
  "is_permutation [] ys = (ys = [])"
| "is_permutation (x # xs) ys = (x \<in> set ys \<and> is_permutation xs (remove1 x ys))"

text \<open>The ids of the two vertices of an edge: \<open>e.vertex(0).getID()\<close>, \<open>e.vertex(1).getID()\<close>.\<close>

definition edge_vertex_ids :: "Vertex list \<Rightarrow> Edge \<Rightarrow> error + int list" where
  "edge_vertex_ids vs e =
     (case vertex_at vs (fst (edge_vertices e)) of
        Inl err \<Rightarrow> Inl err
      | Inr a \<Rightarrow>
         (case vertex_at vs (snd (edge_vertices e)) of
            Inl err \<Rightarrow> Inl err
          | Inr b \<Rightarrow> Inr [vertex_id a, vertex_id b]))"

text \<open>
  The \<open>std::find_if\<close> of \<open>createUniqueEdge\<close>: the position of the first edge whose vertex
  ids are a permutation of \<open>vids\<close>, scanning from position \<open>i\<close>; \<open>None\<close> is \<open>eend\<close>.
\<close>

fun find_edge :: "Vertex list \<Rightarrow> int list \<Rightarrow> Edge list \<Rightarrow> nat \<Rightarrow> error + nat option" where
  "find_edge vs vids [] i = Inr None"
| "find_edge vs vids (e # es) i =
     (case edge_vertex_ids vs e of
        Inl err \<Rightarrow> Inl err
      | Inr eids \<Rightarrow>
          if is_permutation vids eids then Inr (Some i)
          else find_edge vs vids es (Suc i))"

definition createUniqueEdge :: "nat \<Rightarrow> nat \<Rightarrow> Mesh \<Rightarrow> error + Mesh \<times> nat" where
  "createUniqueEdge vertexOne vertexTwo m =
     (case vertex_at (mesh_vertices m) vertexOne of
        Inl err \<Rightarrow> Inl err
      | Inr a \<Rightarrow>
         (case vertex_at (mesh_vertices m) vertexTwo of
            Inl err \<Rightarrow> Inl err
          | Inr b \<Rightarrow>
             (case find_edge (mesh_vertices m) [vertex_id a, vertex_id b] (mesh_edges m) 0 of
                Inl err \<Rightarrow> Inl err
              | Inr (Some pos) \<Rightarrow> Inr (m, pos)
              | Inr None \<Rightarrow> Inr (createEdge vertexOne vertexTwo m))))"

definition createTriangle :: "nat \<Rightarrow> nat \<Rightarrow> nat \<Rightarrow> Mesh \<Rightarrow> error + Mesh \<times> nat" where
  "createTriangle edgeOne edgeTwo edgeThree m =
     (case edge_at (mesh_edges m) edgeOne of
        Inl err \<Rightarrow> Inl err
      | Inr e1 \<Rightarrow>
     (case edge_at (mesh_edges m) edgeTwo of
        Inl err \<Rightarrow> Inl err
      | Inr e2 \<Rightarrow>
     (case edge_at (mesh_edges m) edgeThree of
        Inl err \<Rightarrow> Inl err
      | Inr e3 \<Rightarrow>
         if \<not> (connectedTo e1 e2 \<and> connectedTo e2 e3 \<and> connectedTo e3 e1)
         then Inl (CheckFailed ''Edges are not connected!'')
         else let (ident, next_id) = getFreeID (mesh_manageTriangleIDs m)
              in Inr (m\<lparr>mesh_triangles :=
                           mesh_triangles m @ [Triangle_ctor edgeOne edgeTwo edgeThree ident],
                        mesh_manageTriangleIDs := next_id\<rparr>,
                      length (mesh_triangles m)))))"

definition createQuad :: "nat \<Rightarrow> nat \<Rightarrow> nat \<Rightarrow> nat \<Rightarrow> Mesh \<Rightarrow> Mesh \<times> nat" where
  "createQuad edgeOne edgeTwo edgeThree edgeFour m =
     (let (ident, next_id) = getFreeID (mesh_manageQuadIDs m)
      in (m\<lparr>mesh_quads :=
                mesh_quads m @ [Quad_ctor edgeOne edgeTwo edgeThree edgeFour ident],
             mesh_manageQuadIDs := next_id\<rparr>,
          length (mesh_quads m)))"

subsection \<open>Mesh::createData\<close>

text \<open>
  Modelled from the spec: \<open>Data::getDataCount\<close> and the constructor of \<open>Data\<close> (the class
  is not among the sources). "Ids are globally unique across all data": the class keeps
  one counter for the whole process, \<open>getDataCount\<close> reads it, and constructing a
  \<open>Data\<close> advances it. The counter is threaded through \<open>createData\<close> as a second state
  component. A new field has no values yet.
\<close>

definition getDataCount :: "int \<Rightarrow> int" where
  "getDataCount dataCount = dataCount"

definition Data_ctor :: "string \<Rightarrow> int \<Rightarrow> int \<Rightarrow> int \<Rightarrow> Data \<times> int" where
  "Data_ctor name ident dimension dataCount =
     (\<lparr>data_name = name, data_id = ident, data_dimensions = dimension, data_values = []\<rparr>,
      dataCount + 1)"

definition createData_message :: "string \<Rightarrow> string \<Rightarrow> string" where
  "createData_message name meshName =
     ''Data '' @ [CHR 0x22] @ name @ [CHR 0x22] @ '' cannot be created twice for mesh ''
       @ [CHR 0x22] @ meshName @ [CHR 0x22] @ ''!''"

definition createData :: "string \<Rightarrow> int \<Rightarrow> Mesh \<times> int \<Rightarrow> error + (Mesh \<times> int) \<times> Data" where
  "createData name dimension st =
     (let m = fst st; dataCount = snd st
      in if \<exists>d \<in> set (mesh_data m). \<not> (data_name d \<noteq> name)
         then Inl (CheckFailed (createData_message name (mesh_name m)))
         else let ident = getDataCount dataCount;
                  (d, dataCount') = Data_ctor name ident dimension dataCount
              in Inr ((m\<lparr>mesh_data := mesh_data m @ [d]\<rparr>, dataCount'), d))"

subsection \<open>Mesh::allocateDataValues\<close>

text \<open>
  \<open>Eigen::VectorXd::resize\<close> keeps the coefficients only when the size does not change;
  otherwise the vector is reallocated and its new coefficients are not initialised. The
  parameter \<open>uninit\<close> stands for whatever the fresh memory holds.
\<close>

definition Eigen_resize :: "(nat \<Rightarrow> real) \<Rightarrow> nat \<Rightarrow> VectorXd \<Rightarrow> VectorXd" where
  "Eigen_resize uninit n xs = (if n = length xs then xs else map uninit [0..<n])"

text \<open>\<open>utils::append\<close>: the second vector is appended to the first.\<close>

definition append_values :: "VectorXd \<Rightarrow> VectorXd \<Rightarrow> VectorXd" where
  "append_values xs ys = xs @ ys"

text \<open>
  The body of the loop of \<open>allocateDataValues\<close> for one data field. The sizes are
  \<open>std::size_t\<close> values: the product wraps modulo \<open>2 ^ 64\<close>, the \<open>int\<close> dimension is
  converted to \<open>std::size_t\<close> first. \<open>actualSize\<close> is read once, before the shrinking.
\<close>

definition allocate_data :: "(nat \<Rightarrow> real) \<Rightarrow> SizeType \<Rightarrow> Data \<Rightarrow> Data" where
  "allocate_data uninit expectedCount d =
     (let expectedSize = expectedCount * of_int (data_dimensions d);
          actualSize = (of_nat (length (data_values d)) :: SizeType);
          d1 = (if expectedSize < actualSize
                then d\<lparr>data_values := Eigen_resize uninit (unat expectedSize) (data_values d)\<rparr>
                else d);
          d2 = (if expectedSize > actualSize
                then d1\<lparr>data_values :=
                          append_values (data_values d1)
                            (replicate (unat (expectedSize - actualSize)) 0)\<rparr>
                else d1)
      in d2)"

definition allocateDataValues :: "(nat \<Rightarrow> real) \<Rightarrow> Mesh \<Rightarrow> Mesh" where
  "allocateDataValues uninit m =
     m\<lparr>mesh_data :=
         map (allocate_data uninit (of_nat (length (mesh_vertices m)))) (mesh_data m)\<rparr>"

subsection \<open>Mesh::computeBoundingBox\<close>

definition computeBoundingBox :: "Mesh \<Rightarrow> Mesh" where
  "computeBoundingBox m =
     m\<lparr>mesh_boundingBox :=
         fold expandBy (mesh_vertices m) (BoundingBox_ctor (mesh_dimensions m))\<rparr>"

subsection \<open>Mesh::clear\<close>

definition clear :: "(nat \<Rightarrow> real) \<Rightarrow> Mesh \<Rightarrow> Mesh" where
  "clear uninit m =
     m\<lparr>mesh_quads := [], mesh_triangles := [], mesh_edges := [], mesh_vertices := [],
       mesh_manageTriangleIDs := resetIDs (mesh_manageTriangleIDs m),
       mesh_manageEdgeIDs := resetIDs (mesh_manageEdgeIDs m),
       mesh_manageVertexIDs := resetIDs (mesh_manageVertexIDs m),
       mesh_data :=
         map (\<lambda>d. d\<lparr>data_values := Eigen_resize uninit 0 (data_values d)\<rparr>) (mesh_data m)\<rparr>"

subsection \<open>Mesh::addMesh\<close>

text \<open>The setters of \<open>Vertex\<close> used by \<open>addMesh\<close>, applied to the vertex a reference designates.\<close>

definition update_vertex :: "nat \<Rightarrow> (Vertex \<Rightarrow> Vertex) \<Rightarrow> Mesh \<Rightarrow> Mesh" where
  "update_vertex r f m = m\<lparr>mesh_vertices := (mesh_vertices m)[r := f (mesh_vertices m ! r)]\<rparr>"

definition setGlobalIndex :: "int \<Rightarrow> Vertex \<Rightarrow> Vertex" where
  "setGlobalIndex globalIndex v = v\<lparr>vertex_globalIndex := globalIndex\<rparr>"

definition tag :: "Vertex \<Rightarrow> Vertex" where
  "tag v = v\<lparr>vertex_tagged := True\<rparr>"

definition setOwner :: "bool \<Rightarrow> Vertex \<Rightarrow> Vertex" where
  "setOwner owner v = v\<lparr>vertex_owner := owner\<rparr>"

text \<open>
  The first loop of \<open>addMesh\<close>, over the vertices of the delta mesh. \<open>vertexMap\<close> maps the
  id of a vertex of the delta mesh to the reference to its copy.
\<close>

fun addMesh_vertices ::
  "Vertex list \<Rightarrow> Mesh \<Rightarrow> (int \<rightharpoonup> nat) \<Rightarrow> error + Mesh \<times> (int \<rightharpoonup> nat)" where
  "addMesh_vertices [] m vertexMap = Inr (m, vertexMap)"
| "addMesh_vertices (vertex # rest) m vertexMap =
     (case createVertex (vertex_coords vertex) m of
        Inl err \<Rightarrow> Inl err
      | Inr (m1, v) \<Rightarrow>
          let m2 = update_vertex v (setGlobalIndex (vertex_globalIndex vertex)) m1;
              m3 = (if vertex_tagged vertex then update_vertex v tag m2 else m2);
              m4 = update_vertex v (setOwner (vertex_owner vertex)) m3
          in if \<not> (vertex_id vertex \<ge> 0) then Inl AssertionFailed
             else addMesh_vertices rest m4 (vertexMap(vertex_id vertex \<mapsto> v)))"

text \<open>
  The second loop, over the edges of the delta mesh, whose vertices are resolved in the
  delta mesh. \<open>edgeMap\<close> maps the id of an edge of the delta mesh to its copy.
\<close>

fun addMesh_edges ::
  "Vertex list \<Rightarrow> (int \<rightharpoonup> nat) \<Rightarrow> Edge list \<Rightarrow> Mesh \<Rightarrow> (int \<rightharpoonup> nat)
     \<Rightarrow> error + Mesh \<times> (int \<rightharpoonup> nat)" where
  "addMesh_edges dvs vertexMap [] m edgeMap = Inr (m, edgeMap)"
| "addMesh_edges dvs vertexMap (edge # rest) m edgeMap =
     (case edge_vertex_ids dvs edge of
        Inl err \<Rightarrow> Inl err
      | Inr vids \<Rightarrow>
          (case (vertexMap (vids ! 0), vertexMap (vids ! 1)) of
             (Some p, Some q) \<Rightarrow>
               addMesh_edges dvs vertexMap rest (fst (createEdge p q m))
                 (edgeMap(edge_id edge \<mapsto> snd (createEdge p q m)))
           | _ \<Rightarrow> Inl AssertionFailed))"

text \<open>The ids of the three edges of a triangle, resolved in the edges \<open>des\<close>.\<close>

definition triangle_edge_ids :: "Edge list \<Rightarrow> Triangle \<Rightarrow> error + int \<times> int \<times> int" where
  "triangle_edge_ids des t =
     (case edge_at des (fst (triangle_edges t)) of
        Inl err \<Rightarrow> Inl err
      | Inr e1 \<Rightarrow>
     (case edge_at des (fst (snd (triangle_edges t))) of
        Inl err \<Rightarrow> Inl err
      | Inr e2 \<Rightarrow>
     (case edge_at des (snd (snd (triangle_edges t))) of
        Inl err \<Rightarrow> Inl err
      | Inr e3 \<Rightarrow> Inr (edge_id e1, edge_id e2, edge_id e3))))"

text \<open>The third loop, over the triangles of the delta mesh.\<close>

fun addMesh_triangles ::
  "Edge list \<Rightarrow> (int \<rightharpoonup> nat) \<Rightarrow> Triangle list \<Rightarrow> Mesh \<Rightarrow> error + Mesh" where
  "addMesh_triangles des edgeMap [] m = Inr m"
| "addMesh_triangles des edgeMap (triangle # rest) m =
     (case triangle_edge_ids des triangle of
        Inl err \<Rightarrow> Inl err
      | Inr (edgeIndex1, edgeIndex2, edgeIndex3) \<Rightarrow>
          (case (edgeMap edgeIndex1, edgeMap edgeIndex2, edgeMap edgeIndex3) of
             (Some a, Some b, Some c) \<Rightarrow>
               (case createTriangle a b c m of
                  Inl err \<Rightarrow> Inl err
                | Inr (m1, t) \<Rightarrow> addMesh_triangles des edgeMap rest m1)
           | _ \<Rightarrow> Inl AssertionFailed))"

definition addMesh :: "Mesh \<Rightarrow> Mesh \<Rightarrow> error + Mesh" where
  "addMesh deltaMesh m =
     (if \<not> (mesh_dimensions m = getDimensions deltaMesh) then Inl AssertionFailed
      else
        case addMesh_vertices (mesh_vertices deltaMesh) m Map.empty of
          Inl err \<Rightarrow> Inl err
        | Inr (m1, vertexMap) \<Rightarrow>
           (case addMesh_edges (mesh_vertices deltaMesh) vertexMap
                   (mesh_edges deltaMesh) m1 Map.empty of
              Inl err \<Rightarrow> Inl err
            | Inr (m2, edgeMap) \<Rightarrow>
                if mesh_dimensions m2 = 3
                then addMesh_triangles (mesh_edges deltaMesh) edgeMap
                       (mesh_triangles deltaMesh) m2
                else Inr m2))"

subsection \<open>Mesh::computeState\<close>

text \<open>
  The geometric kernels \<open>computeState\<close> calls are methods of classes that are not among
  the sources; they are parameters of the model: the weighted normal of an edge, of a
  triangle and of a quad, computed from their vertices; \<open>normalized\<close> of Eigen; the
  comparison of two vertices; and the vertex a triangle or a quad returns for an index.
\<close>

record Kernels =
  k_uninit :: "nat \<Rightarrow> real"
  k_edge_computeNormal :: "bool \<Rightarrow> Vertex \<Rightarrow> Vertex \<Rightarrow> VectorXd"
  k_face_computeNormal :: "bool \<Rightarrow> Vertex list \<Rightarrow> VectorXd"
  k_normalized :: "VectorXd \<Rightarrow> VectorXd"
  k_vertex_equal :: "Vertex \<Rightarrow> Vertex \<Rightarrow> bool"
  k_triangle_vertex :: "Edge list \<Rightarrow> Triangle \<Rightarrow> nat \<Rightarrow> nat"
  k_quad_vertex :: "Edge list \<Rightarrow> Quad \<Rightarrow> nat \<Rightarrow> nat"

definition vadd :: "VectorXd \<Rightarrow> VectorXd \<Rightarrow> VectorXd" where
  "vadd a b = map2 (+) a b"

definition add_vertex_normal :: "VectorXd \<Rightarrow> nat \<Rightarrow> Vertex list \<Rightarrow> Vertex list" where
  "add_vertex_normal wn r vs = vs[r := (vs ! r)\<lparr>vertex_normal := vadd (vertex_normal (vs ! r)) wn\<rparr>]"

definition add_edge_normal :: "VectorXd \<Rightarrow> nat \<Rightarrow> Edge list \<Rightarrow> Edge list" where
  "add_edge_normal wn r es = es[r := (es ! r)\<lparr>edge_normal := vadd (edge_normal (es ! r)) wn\<rparr>]"

text \<open>Resolving several vertex references at once; the first dangling one is the error.\<close>

fun vertices_at :: "Vertex list \<Rightarrow> nat list \<Rightarrow> error + Vertex list" where
  "vertices_at vs [] = Inr []"
| "vertices_at vs (r # rs) =
     (case vertex_at vs r of
        Inl err \<Rightarrow> Inl err
      | Inr v \<Rightarrow> (case vertices_at vs rs of Inl err \<Rightarrow> Inl err | Inr ws \<Rightarrow> Inr (v # ws)))"

text \<open>The loop over the edges in two dimensions.\<close>

fun computeState_edges :: "Kernels \<Rightarrow> bool \<Rightarrow> Edge list \<Rightarrow> Vertex list \<Rightarrow> error + Vertex list" where
  "computeState_edges K flipNormals [] vs = Inr vs"
| "computeState_edges K flipNormals (edge # rest) vs =
     (case vertices_at vs [fst (edge_vertices edge), snd (edge_vertices edge)] of
        Inl err \<Rightarrow> Inl err
      | Inr ws \<Rightarrow>
          let weightednormal = k_edge_computeNormal K flipNormals (ws ! 0) (ws ! 1)
          in computeState_edges K flipNormals rest
               (fold (add_vertex_normal weightednormal)
                  [fst (edge_vertices edge), snd (edge_vertices edge)] vs))"

text \<open>
  The assertions on a face: consecutive vertices (cyclically) are different. Then the
  weighted normal of the face is accumulated in its edges and vertices.
\<close>

fun consecutive_differ :: "Kernels \<Rightarrow> Vertex \<Rightarrow> Vertex list \<Rightarrow> bool" where
  "consecutive_differ K first [] = True"
| "consecutive_differ K first [v] = (\<not> k_vertex_equal K v first)"
| "consecutive_differ K first (v # w # ws) =
     (\<not> k_vertex_equal K v w \<and> consecutive_differ K first (w # ws))"

definition accumulate_face ::
  "Kernels \<Rightarrow> bool \<Rightarrow> nat list \<Rightarrow> nat list \<Rightarrow> Vertex list \<times> Edge list
     \<Rightarrow> error + Vertex list \<times> Edge list" where
  "accumulate_face K flipNormals vrefs erefs st =
     (case vertices_at (fst st) vrefs of
        Inl err \<Rightarrow> Inl err
      | Inr ws \<Rightarrow>
          if \<not> consecutive_differ K (hd ws) ws then Inl AssertionFailed
          else if \<not> (\<forall>r \<in> set erefs. r < length (snd st)) then Inl InvalidReference
          else let weightednormal = k_face_computeNormal K flipNormals ws
               in Inr (fold (add_vertex_normal weightednormal) vrefs (fst st),
                       fold (add_edge_normal weightednormal) erefs (snd st)))"

fun computeState_triangles ::
  "Kernels \<Rightarrow> bool \<Rightarrow> Triangle list \<Rightarrow> Vertex list \<times> Edge list
     \<Rightarrow> error + Vertex list \<times> Edge list" where
  "computeState_triangles K flipNormals [] st = Inr st"
| "computeState_triangles K flipNormals (triangle # rest) st =
     (case accumulate_face K flipNormals
             (map (k_triangle_vertex K (snd st) triangle) [0, 1, 2])
             [fst (triangle_edges triangle), fst (snd (triangle_edges triangle)),
              snd (snd (triangle_edges triangle))] st of
        Inl err \<Rightarrow> Inl err
      | Inr st1 \<Rightarrow> computeState_triangles K flipNormals rest st1)"

fun computeState_quads ::
  "Kernels \<Rightarrow> bool \<Rightarrow> Quad list \<Rightarrow> Vertex list \<times> Edge list
     \<Rightarrow> error + Vertex list \<times> Edge list" where
  "computeState_quads K flipNormals [] st = Inr st"
| "computeState_quads K flipNormals (quad # rest) st =
     (case accumulate_face K flipNormals
             (map (k_quad_vertex K (snd st) quad) [0, 1, 2, 3])
             [fst (quad_edges quad), fst (snd (quad_edges quad)),
              fst (snd (snd (quad_edges quad))), snd (snd (snd (quad_edges quad)))] st of
        Inl err \<Rightarrow> Inl err
      | Inr st1 \<Rightarrow> computeState_quads K flipNormals rest st1)"

definition normalize_vertices :: "Kernels \<Rightarrow> Vertex list \<Rightarrow> Vertex list" where
  "normalize_vertices K vs = map (\<lambda>v. v\<lparr>vertex_normal := k_normalized K (vertex_normal v)\<rparr>) vs"

definition normalize_edges :: "Kernels \<Rightarrow> Edge list \<Rightarrow> Edge list" where
  "normalize_edges K es = map (\<lambda>e. e\<lparr>edge_normal := k_normalized K (edge_normal e)\<rparr>) es"

definition computeState :: "Kernels \<Rightarrow> Mesh \<Rightarrow> error + Mesh" where
  "computeState K m =
     (if \<not> (mesh_dimensions m = 2 \<or> mesh_dimensions m = 3) then Inl AssertionFailed
      else if mesh_dimensions m = 2 \<and> length (mesh_edges m) = 0 then Inr m
      else if mesh_dimensions m = 3 \<and> length (mesh_triangles m) + length (mesh_quads m) = 0
           then Inr m
      else
        case (if mesh_dimensions m = 2
              then computeState_edges K (mesh_flipNormals m) (mesh_edges m) (mesh_vertices m)
              else Inr (mesh_vertices m)) of
          Inl err \<Rightarrow> Inl err
        | Inr vs1 \<Rightarrow>
           (case (if mesh_dimensions m = 3
                  then (case computeState_triangles K (mesh_flipNormals m) (mesh_triangles m)
                                (vs1, mesh_edges m) of
                          Inl err \<Rightarrow> Inl err
                        | Inr st1 \<Rightarrow>
                           (case computeState_quads K (mesh_flipNormals m) (mesh_quads m) st1 of
                              Inl err \<Rightarrow> Inl err
                            | Inr st2 \<Rightarrow> Inr (fst st2, normalize_edges K (snd st2))))
                  else Inr (vs1, mesh_edges m)) of
              Inl err \<Rightarrow> Inl err
            | Inr st3 \<Rightarrow>
                Inr (m\<lparr>mesh_vertices := normalize_vertices K (fst st3),
                       mesh_edges := snd st3\<rparr>)))"

subsection \<open>Mesh::computeQuadConvexityFromPoints\<close>

text \<open>
  \<open>Eigen::Vector3d\<close> is a fixed-size vector: the difference of two coordinate vectors
  can be stored in one only when both have three coefficients. \<open>vertices()[i]\<close> with an
  index outside the container is an out-of-bounds access.
\<close>

type_synonym Vector3d = "real \<times> real \<times> real"

definition coords_at :: "Vertex list \<Rightarrow> int \<Rightarrow> error + VectorXd" where
  "coords_at vs i =
     (if 0 \<le> i \<and> nat i < length vs then Inr (vertex_coords (vs ! nat i)) else Inl OutOfBounds)"

definition difference3 :: "VectorXd \<Rightarrow> VectorXd \<Rightarrow> error + Vector3d" where
  "difference3 a b =
     (if length a = 3 \<and> length b = 3
      then Inr (a ! 0 - b ! 0, a ! 1 - b ! 1, a ! 2 - b ! 2)
      else Inl AssertionFailed)"

fun dot :: "Vector3d \<Rightarrow> Vector3d \<Rightarrow> real" where
  "dot (a1, a2, a3) (b1, b2, b3) = a1 * b1 + a2 * b2 + a3 * b3"

fun cross :: "Vector3d \<Rightarrow> Vector3d \<Rightarrow> Vector3d" where
  "cross (a1, a2, a3) (b1, b2, b3) = (a2 * b3 - a3 * b2, a3 * b1 - a1 * b3, a1 * b2 - a2 * b1)"

text \<open>\<open>vertices()[vertexIDs[i]].getCoords() - vertices()[vertexIDs[0]].getCoords()\<close>.\<close>

definition distance_to_first :: "Vertex list \<Rightarrow> int list \<Rightarrow> nat \<Rightarrow> error + Vector3d" where
  "distance_to_first vs vertexIDs i =
     (case coords_at vs (vertexIDs ! i) of
        Inl err \<Rightarrow> Inl err
      | Inr a \<Rightarrow>
         (case coords_at vs (vertexIDs ! 0) of
            Inl err \<Rightarrow> Inl err
          | Inr b \<Rightarrow> difference3 a b))"

text \<open>The transformed coordinates of the four points.\<close>

fun transform_coords ::
  "Vertex list \<Rightarrow> int list \<Rightarrow> Vector3d \<Rightarrow> Vector3d \<Rightarrow> Vector3d \<Rightarrow> nat list
     \<Rightarrow> error + Vector3d list" where
  "transform_coords vs vertexIDs e_1 e_2 normalVector [] = Inr []"
| "transform_coords vs vertexIDs e_1 e_2 normalVector (i # rest) =
     (case distance_to_first vs vertexIDs i of
        Inl err \<Rightarrow> Inl err
      | Inr euclideanDistance \<Rightarrow>
         (case transform_coords vs vertexIDs e_1 e_2 normalVector rest of
            Inl err \<Rightarrow> Inl err
          | Inr cs \<Rightarrow>
              Inr ((dot e_1 euclideanDistance, dot e_2 euclideanDistance,
                    dot normalVector euclideanDistance) # cs)))"

definition coord_x :: "Vector3d list \<Rightarrow> nat \<Rightarrow> real" where
  "coord_x coords i = fst (coords ! i)"

definition coord_y :: "Vector3d list \<Rightarrow> nat \<Rightarrow> real" where
  "coord_y coords i = fst (snd (coords ! i))"

text \<open>The point with the smallest x coordinate (the first one among equals).\<close>

definition lowest_point :: "Vector3d list \<Rightarrow> nat" where
  "lowest_point coords =
     fold (\<lambda>i idLowestPoint. if coord_x coords i < coord_x coords idLowestPoint then i
                               else idLowestPoint)
       [1, 2, 3] 0"

text \<open>The inner \<open>for\<close> loop of the gift wrapping: the next vertex after \<open>currentVertex\<close>.\<close>

definition next_vertex :: "Vector3d list \<Rightarrow> nat \<Rightarrow> nat" where
  "next_vertex coords currentVertex =
     fold (\<lambda>i nextVertex.
             let y1 = coord_y coords currentVertex - coord_y coords nextVertex;
                 y2 = coord_y coords currentVertex - coord_y coords i;
                 x1 = coord_x coords currentVertex - coord_x coords nextVertex;
                 x2 = coord_x coords currentVertex - coord_x coords i;
                 val = y2 * x1 - y1 * x2
             in if val > 0 then i else nextVertex)
       [0, 1, 2, 3] ((currentVertex + 1) mod 4)"

text \<open>
  The \<open>do ... while\<close> loop. It writes \<open>vertexIDs[validVertexIDCounter]\<close> before anything
  else; the array has four elements, so a fifth iteration writes out of bounds.
\<close>

function hull_loop ::
  "Vector3d list \<Rightarrow> nat \<Rightarrow> int list \<Rightarrow> nat \<Rightarrow> nat \<Rightarrow> error + int list \<times> nat" where
  "hull_loop coords idLowestPoint vertexIDs validVertexIDCounter currentVertex =
     (if validVertexIDCounter \<ge> 4 then Inl OutOfBounds
      else
        let vertexIDs' = vertexIDs[validVertexIDCounter := int currentVertex];
            nextVertex = next_vertex coords currentVertex;
            validVertexIDCounter' = validVertexIDCounter + 1
        in if nextVertex \<noteq> idLowestPoint
           then hull_loop coords idLowestPoint vertexIDs' validVertexIDCounter' nextVertex
           else Inr (vertexIDs', validVertexIDCounter'))"
  by pat_completeness auto
termination
  by (relation "measure (\<lambda>(coords, idLowestPoint, vertexIDs, n, currentVertex). 4 - n)") auto

text \<open>
  The result is the returned bool and the contents of the array \<open>vertexIDs\<close> (a
  \<open>std::array<int,4>\<close>, passed by reference) after the call.
\<close>

definition computeQuadConvexityFromPoints :: "Mesh \<Rightarrow> int list \<Rightarrow> error + bool \<times> int list" where
  "computeQuadConvexityFromPoints m vertexIDs =
     (if length vertexIDs \<noteq> 4 then Inl OutOfBounds
      else
        case distance_to_first (mesh_vertices m) vertexIDs 1 of
          Inl err \<Rightarrow> Inl err
        | Inr e_1 \<Rightarrow>
       (case distance_to_first (mesh_vertices m) vertexIDs 2 of
          Inl err \<Rightarrow> Inl err
        | Inr e_2 \<Rightarrow>
       (case transform_coords (mesh_vertices m) vertexIDs e_1 e_2 (cross e_1 e_2)
               [0, 1, 2, 3] of
          Inl err \<Rightarrow> Inl err
        | Inr coords \<Rightarrow>
           (case hull_loop coords (lowest_point coords) vertexIDs 0 (lowest_point coords) of
              Inl err \<Rightarrow> Inl err
            | Inr (vertexIDs', validVertexIDCounter) \<Rightarrow>
                Inr (validVertexIDCounter = 4, vertexIDs')))))"

section \<open>The lifetime of a mesh\<close>

text \<open>
  The operations of \<open>Mesh\<close> that change a mesh, as values, and their application to a mesh
  together with the process-wide data counter. A run applies a sequence of operations
  and stops at the first failing one, as the abort of the process does.
\<close>

datatype mesh_op =
    CreateVertex VectorXd
  | CreateEdge nat nat
  | CreateUniqueEdge nat nat
  | CreateTriangle nat nat nat
  | CreateQuad nat nat nat nat
  | CreateData string int
  | AllocateDataValues
  | ComputeBoundingBox
  | ComputeState
  | Clear
  | AddMesh Mesh

fun apply_op :: "Kernels \<Rightarrow> mesh_op \<Rightarrow> Mesh \<times> int \<Rightarrow> error + Mesh \<times> int" where
  "apply_op K (CreateVertex coords) (m, c) =
     (case createVertex coords m of Inl err \<Rightarrow> Inl err | Inr (m', v) \<Rightarrow> Inr (m', c))"
| "apply_op K (CreateEdge v1 v2) (m, c) = Inr (fst (createEdge v1 v2 m), c)"
| "apply_op K (CreateUniqueEdge v1 v2) (m, c) =
     (case createUniqueEdge v1 v2 m of Inl err \<Rightarrow> Inl err | Inr (m', e) \<Rightarrow> Inr (m', c))"
| "apply_op K (CreateTriangle e1 e2 e3) (m, c) =
     (case createTriangle e1 e2 e3 m of Inl err \<Rightarrow> Inl err | Inr (m', t) \<Rightarrow> Inr (m', c))"
| "apply_op K (CreateQuad e1 e2 e3 e4) (m, c) = Inr (fst (createQuad e1 e2 e3 e4 m), c)"
| "apply_op K (CreateData name dimension) (m, c) =
     (case createData name dimension (m, c) of Inl err \<Rightarrow> Inl err | Inr (st, d) \<Rightarrow> Inr st)"
| "apply_op K AllocateDataValues (m, c) = Inr (allocateDataValues (k_uninit K) m, c)"
| "apply_op K ComputeBoundingBox (m, c) = Inr (computeBoundingBox m, c)"
| "apply_op K ComputeState (m, c) =
     (case computeState K m of Inl err \<Rightarrow> Inl err | Inr m' \<Rightarrow> Inr (m', c))"
| "apply_op K Clear (m, c) = Inr (clear (k_uninit K) m, c)"
| "apply_op K (AddMesh deltaMesh) (m, c) =
     (case addMesh deltaMesh m of Inl err \<Rightarrow> Inl err | Inr m' \<Rightarrow> Inr (m', c))"

fun run_ops :: "Kernels \<Rightarrow> mesh_op list \<Rightarrow> Mesh \<times> int \<Rightarrow> error + Mesh \<times> int" where
  "run_ops K [] st = Inr st"
| "run_ops K (op # ops) st =
     (case apply_op K op st of Inl err \<Rightarrow> Inl err | Inr st' \<Rightarrow> run_ops K ops st')"

section \<open>CouplingData\<close>

text \<open>
  A raw pointer is \<open>None\<close> when it is \<open>NULL\<close> and otherwise the address it holds. A
  \<open>std::shared_ptr\<close> is either empty, with use count 0, or shares ownership of an object
  with a number of other owners, with use count at least 1.
\<close>

datatype 'a shared_ptr = Empty | Shared 'a nat

fun use_count :: "'a shared_ptr \<Rightarrow> nat" where
  "use_count Empty = 0"
| "use_count (Shared obj others) = Suc others"

record CouplingData =
  cd_values :: "nat option"
  cd_newValues :: "nat option"
  cd_oldValues :: "real list list"
  cd_mesh :: "Mesh shared_ptr"
  cd_initialize :: bool
  cd_dimension :: int

text \<open>The default constructor: \<open>assertion (false)\<close>.\<close>

definition CouplingData_default :: "error + CouplingData" where
  "CouplingData_default = (if \<not> False then Inl AssertionFailed
     else Inr \<lparr>cd_values = None, cd_newValues = None, cd_oldValues = [],
               cd_mesh = Empty, cd_initialize = False, cd_dimension = 0\<rparr>)"

text \<open>The constructor from values, mesh, initialize and dimension.\<close>

definition CouplingData_ctor ::
  "nat option \<Rightarrow> Mesh shared_ptr \<Rightarrow> bool \<Rightarrow> int \<Rightarrow> error + CouplingData" where
  "CouplingData_ctor vals mesh initialize dimension =
     (if \<not> (vals \<noteq> None) then Inl AssertionFailed
      else if \<not> (use_count mesh > 0) then Inl AssertionFailed
      else Inr \<lparr>cd_values = vals, cd_newValues = None, cd_oldValues = [],
                cd_mesh = mesh, cd_initialize = initialize, cd_dimension = dimension\<rparr>)"

section \<open>Sequences of createData calls on several meshes\<close>

text \<open>
  A process holds several meshes and one data counter. A call names the mesh (by its
  position among the meshes), the name and the dimension of the new field. The run
  collects the created \<open>Data\<close> objects in order and stops at the first failing call.
\<close>

fun createData_calls ::
  "(nat \<times> string \<times> int) list \<Rightarrow> Mesh list \<times> int \<Rightarrow> error + (Mesh list \<times> int) \<times> Data list" where
  "createData_calls [] w = Inr (w, [])"
| "createData_calls ((i, name, dimension) # rest) (ms, c) =
     (if \<not> i < length ms then Inl InvalidReference
      else
        case createData name dimension (ms ! i, c) of
          Inl err \<Rightarrow> Inl err
        | Inr ((m', c'), d) \<Rightarrow>
           (case createData_calls rest (ms[i := m'], c') of
              Inl err \<Rightarrow> Inl err
            | Inr (w', ds) \<Rightarrow> Inr (w', d # ds)))"

section \<open>Edges between a pair of vertex ids\<close>

text \<open>
  The edge at position \<open>j\<close> of a mesh joins the vertex ids \<open>vids\<close> when the ids of its two
  vertices are a permutation of \<open>vids\<close>.
\<close>

definition has_vertex_ids :: "Mesh \<Rightarrow> int list \<Rightarrow> nat \<Rightarrow> bool" where
  "has_vertex_ids m vids j =
     (j < length (mesh_edges m)
    \<and> (case edge_vertex_ids (mesh_vertices m) (mesh_edges m ! j) of
         Inl err \<Rightarrow> False
       | Inr ids \<Rightarrow> is_permutation vids ids))"

section \<open>Example meshes\<close>

text \<open>
  Concrete meshes on which the theorems below are instantiated: a three-dimensional mesh
  with eight vertices (the corners of two unit squares, in the planes \<open>z = 5\<close> and
  \<open>z = 0\<close>) and two data fields whose buffers are too short and too long.
\<close>

definition example_vertices :: "Vertex list" where
  "example_vertices =
     [Vertex_ctor [0, 0, 5] 0, Vertex_ctor [1, 0, 5] 1,
      Vertex_ctor [1, 1, 5] 2, Vertex_ctor [0, 1, 5] 3,
      Vertex_ctor [0, 0, 0] 4, Vertex_ctor [1, 0, 0] 5,
      Vertex_ctor [1, 1, 0] 6, Vertex_ctor [0, 1, 0] 7]"

definition example_data :: "Data list" where
  "example_data =
     [\<lparr>data_name = ''Forces'', data_id = 0, data_dimensions = 3, data_values = [1, 2]\<rparr>,
      \<lparr>data_name = ''Pressure'', data_id = 1, data_dimensions = 1,
        data_values = [1, 2, 3, 4, 5, 6, 7, 8, 9, 10]\<rparr>]"

definition example_mesh :: Mesh where
  "example_mesh =
     \<lparr>mesh_name = ''Square'', mesh_dimensions = 3, mesh_flipNormals = False, mesh_id = 0,
      mesh_vertices = example_vertices, mesh_edges = [], mesh_triangles = [],
      mesh_quads = [], mesh_data = example_data,
      mesh_manageVertexIDs = 8, mesh_manageEdgeIDs = 0,
      mesh_manageTriangleIDs = 0, mesh_manageQuadIDs = 0,
      mesh_boundingBox = BoundingBox_ctor 3\<rparr>"

text \<open>Kernels for the examples: every normal is the zero vector, vertices are compared by
  their coordinates, and a face returns the first vertex of its \<open>i\<close>-th edge.\<close>

definition example_kernels :: Kernels where
  "example_kernels =
     \<lparr>k_uninit = (\<lambda>i. 0),
      k_edge_computeNormal = (\<lambda>flipNormals a b. replicate (length (vertex_coords a)) 0),
      k_face_computeNormal = (\<lambda>flipNormals vs. [0, 0, 0]),
      k_normalized = (\<lambda>n. n),
      k_vertex_equal = (\<lambda>a b. vertex_coords a = vertex_coords b),
      k_triangle_vertex =
        (\<lambda>es t i. fst (edge_vertices (es ! ([fst (triangle_edges t),
           fst (snd (triangle_edges t)), snd (snd (triangle_edges t))] ! i)))),
      k_quad_vertex =
        (\<lambda>es q i. fst (edge_vertices (es ! ([fst (quad_edges q), fst (snd (quad_edges q)),
           fst (snd (snd (quad_edges q))), snd (snd (snd (quad_edges q)))] ! i))))\<rparr>"

text \<open>
  A run that builds a triangle on three vertices, and an edge apart from it, in a fresh
  three-dimensional mesh; and a run that creates, allocates and clears.
\<close>

definition example_ops :: "mesh_op list" where
  "example_ops =
     [CreateVertex [0, 0, 0], CreateVertex [1, 0, 0], CreateVertex [0, 1, 0],
      CreateVertex [5, 5, 5], CreateVertex [6, 5, 5],
      CreateEdge 0 1, CreateEdge 1 2, CreateUniqueEdge 2 0, CreateEdge 3 4,
      CreateTriangle 0 1 2]"

definition example_lifetime :: "mesh_op list" where
  "example_lifetime =
     [CreateVertex [0, 0, 0], CreateVertex [1, 0, 0], CreateEdge 0 1,
      CreateData ''Forces'' 3, AllocateDataValues, ComputeBoundingBox, ComputeState, Clear]"

definition example_triangle_mesh :: Mesh where
  "example_triangle_mesh =
     fst (projr (run_ops example_kernels example_ops (projr (Mesh_ctor ''Square'' 3 False 0), 0)))"

text \<open>A delta mesh with a quad, and a fresh mesh to receive it.\<close>

definition example_delta_mesh :: Mesh where
  "example_delta_mesh =
     (fst (createQuad 0 1 2 3 example_triangle_mesh))
       \<lparr>mesh_vertices :=
          [setGlobalIndex 10 (Vertex_ctor [0, 0, 0] 0),
           tag (Vertex_ctor [1, 0, 0] 1),
           setOwner False (Vertex_ctor [0, 1, 0] 2),
           Vertex_ctor [5, 5, 5] 3, Vertex_ctor [6, 5, 5] 4]\<rparr>"

definition example_target_mesh :: Mesh where
  "example_target_mesh =
     fst (projr (createVertex [9, 9, 9] (projr (Mesh_ctor ''Target'' 3 False 1))))"

section \<open>Buffer sizes after allocateDataValues\<close>

lemma unat_expected_size:
  assumes "0 \<le> k" and "n * nat k < 2 ^ 63"
  shows "unat ((of_nat n :: SizeType) * of_int k) = n * nat k"
proof -
  have "(of_int k :: SizeType) = of_nat (nat k)"
    using assms(1) by (metis of_int_of_nat_eq int_nat_eq)
  then have eq: "(of_nat n :: SizeType) * of_int k = of_nat (n * nat k)"
    by simp
  have bound: "n * nat k < 2 ^ LENGTH(64)"
    using assms(2) by simp
  have "unat (of_nat (n * nat k) :: SizeType) = (n * nat k) mod 2 ^ LENGTH(64)"
    by (rule unat_of_nat)
  also have "\<dots> = n * nat k"
    using bound by (rule mod_less)
  finally show ?thesis
    by (simp only: eq)
qed

lemma unat_actual_size:
  assumes "k < 2 ^ 63"
  shows "unat (of_nat k :: SizeType) = k"
proof -
  have "k < 2 ^ LENGTH(64)" using assms by simp
  then show ?thesis by (simp add: unat_of_nat)
qed

lemma allocate_data_length:
  assumes nonneg: "0 \<le> data_dimensions d"
    and fits: "n * nat (data_dimensions d) < 2 ^ 63"
    and old: "length (data_values d) < 2 ^ 63"
  shows "length (data_values (allocate_data uninit (of_nat n) d)) = n * nat (data_dimensions d)"
proof -
  let ?e = "(of_nat n :: SizeType) * of_int (data_dimensions d)"
  let ?a = "of_nat (length (data_values d)) :: SizeType"
  have e: "unat ?e = n * nat (data_dimensions d)"
    using nonneg fits by (rule unat_expected_size)
  have a: "unat ?a = length (data_values d)"
    using old by (rule unat_actual_size)
  consider (shrink) "?e < ?a" | (grow) "?a < ?e" | (same) "?e = ?a"
    by (meson linorder_less_linear)
  then show ?thesis
  proof cases
    case shrink
    then have "\<not> ?a < ?e" by simp
    with shrink e show ?thesis
      by (simp add: allocate_data_def Let_def Eigen_resize_def)
  next
    case grow
    then have ng: "\<not> ?e < ?a" by simp
    from grow have "unat ?a \<le> unat ?e" by (simp add: word_less_nat_alt)
    moreover from grow have "unat (?e - ?a) = unat ?e - unat ?a"
      by (simp add: unat_sub word_le_nat_alt word_less_nat_alt)
    ultimately show ?thesis
      using grow ng e a by (simp add: allocate_data_def Let_def append_values_def)
  next
    case same
    then have "unat ?e = unat ?a" by simp
    with same e a show ?thesis
      by (simp add: allocate_data_def Let_def)
  qed
qed

lemma allocate_data_dimensions:
  "data_dimensions (allocate_data uninit c d) = data_dimensions d"
  by (simp add: allocate_data_def Let_def)

text \<open>
  Claim C1. After \<open>Mesh::allocateDataValues\<close>, every data field of the mesh has a value
  buffer of length (number of vertices) times (dimension of the field), whatever the
  length of the buffer was before: a longer buffer is shrunk, a shorter one is enlarged.
  The vertices and the dimensions of the fields are the ones of the mesh before the call.
  The sizes are machine sizes: the statement is for fields of non-negative dimension whose
  old and new buffer sizes are representable as an \<open>Eigen::Index\<close> (below \<open>2 ^ 63\<close>).
\<close>

theorem allocateDataValues_buffer_sizes:
  assumes "\<forall>d \<in> set (mesh_data m).
             0 \<le> data_dimensions d
           \<and> length (mesh_vertices m) * nat (data_dimensions d) < 2 ^ 63
           \<and> length (data_values d) < 2 ^ 63"
  shows "mesh_vertices (allocateDataValues uninit m) = mesh_vertices m
       \<and> map data_dimensions (mesh_data (allocateDataValues uninit m))
           = map data_dimensions (mesh_data m)
       \<and> (\<forall>d \<in> set (mesh_data (allocateDataValues uninit m)).
             length (data_values d)
               = length (mesh_vertices (allocateDataValues uninit m)) * nat (data_dimensions d))"
proof (intro conjI ballI)
  show "mesh_vertices (allocateDataValues uninit m) = mesh_vertices m"
    by (simp add: allocateDataValues_def)
  show "map data_dimensions (mesh_data (allocateDataValues uninit m))
          = map data_dimensions (mesh_data m)"
    by (simp add: allocateDataValues_def allocate_data_dimensions)
next
  fix d'
  assume "d' \<in> set (mesh_data (allocateDataValues uninit m))"
  then obtain d where d: "d \<in> set (mesh_data m)"
    and d': "d' = allocate_data uninit (of_nat (length (mesh_vertices m))) d"
    by (auto simp: allocateDataValues_def)
  from d assms have "0 \<le> data_dimensions d"
    "length (mesh_vertices m) * nat (data_dimensions d) < 2 ^ 63"
    "length (data_values d) < 2 ^ 63"
    by auto
  then have "length (data_values d') = length (mesh_vertices m) * nat (data_dimensions d)"
    unfolding d' by (rule allocate_data_length)
  then show "length (data_values d')
      = length (mesh_vertices (allocateDataValues uninit m)) * nat (data_dimensions d')"
    by (simp add: d' allocate_data_dimensions allocateDataValues_def)
qed

theorem allocateDataValues_buffer_sizes_witness:
  "list_all (\<lambda>d. 0 \<le> data_dimensions d
              \<and> length (mesh_vertices example_mesh) * nat (data_dimensions d) < 2 ^ 63
              \<and> length (data_values d) < 2 ^ 63) (mesh_data example_mesh)
   \<and> map (\<lambda>d. length (data_values d)) (mesh_data example_mesh) = [2, 10]
   \<and> map (\<lambda>d. length (data_values d))
        (mesh_data (allocateDataValues (\<lambda>i. 7) example_mesh)) = [24, 8]"
proof -
  have h: "\<forall>d \<in> set (mesh_data example_mesh).
       0 \<le> data_dimensions d
     \<and> length (mesh_vertices example_mesh) * nat (data_dimensions d) < 2 ^ 63
     \<and> length (data_values d) < 2 ^ 63"
    by (simp add: example_mesh_def example_data_def example_vertices_def)
  from allocateDataValues_buffer_sizes [OF h, of "\<lambda>i. 7"]
  have "\<forall>d \<in> set (mesh_data (allocateDataValues (\<lambda>i. 7) example_mesh)).
          length (data_values d) = 8 * nat (data_dimensions d)"
    by (simp add: example_mesh_def example_vertices_def)
  then have "map (\<lambda>d. length (data_values d))
        (mesh_data (allocateDataValues (\<lambda>i. 7) example_mesh)) = [24, 8]"
    by (simp add: allocateDataValues_def example_mesh_def example_data_def
        allocate_data_dimensions)
  moreover have "map (\<lambda>d. length (data_values d)) (mesh_data example_mesh) = [2, 10]"
    by (simp add: example_mesh_def example_data_def)
  ultimately show ?thesis
    using h by (simp add: list_all_iff)
qed

section \<open>Construction of CouplingData\<close>

text \<open>
  Claim C4. Default-constructing a \<open>CouplingData\<close> always fails its assertion. The
  constructor from values, mesh, initialize and dimension succeeds exactly when the
  values pointer is not \<open>NULL\<close> and the mesh pointer is not empty (its use count is
  positive), and fails an assertion otherwise; when it succeeds, the record holds the
  given values pointer, mesh, flag and dimension.
\<close>

theorem CouplingData_constructors:
  "CouplingData_default = Inl AssertionFailed
 \<and> ((\<exists>cd. CouplingData_ctor vals mesh initialize dimension = Inr cd)
      \<longleftrightarrow> vals \<noteq> None \<and> mesh \<noteq> Empty)
 \<and> (vals = None \<or> mesh = Empty
      \<longrightarrow> CouplingData_ctor vals mesh initialize dimension = Inl AssertionFailed)
 \<and> (\<forall>cd. CouplingData_ctor vals mesh initialize dimension = Inr cd
      \<longrightarrow> cd_values cd = vals \<and> cd_mesh cd = mesh \<and> use_count mesh > 0
        \<and> cd_initialize cd = initialize \<and> cd_dimension cd = dimension)"
  by (cases mesh) (auto simp: CouplingData_default_def CouplingData_ctor_def)

theorem CouplingData_constructors_witness:
  "CouplingData_default = Inl AssertionFailed
 \<and> (\<exists>cd. CouplingData_ctor (Some 0) (Shared example_mesh 0) True 3 = Inr cd)
 \<and> CouplingData_ctor None (Shared example_mesh 0) True 3 = Inl AssertionFailed
 \<and> CouplingData_ctor (Some 0) Empty True 3 = Inl AssertionFailed"
  using CouplingData_constructors [of "Some 0" "Shared example_mesh 0" True 3]
    CouplingData_constructors [of None "Shared example_mesh 0" True 3]
    CouplingData_constructors [of "Some 0" Empty True 3]
  by simp

section \<open>The bounding box of a mesh\<close>

lemma expandBy_length:
  "length (bb_bounds (expandBy v bb)) = length (bb_bounds bb)"
  by (simp add: expandBy_def)

lemma fold_expandBy_length:
  "length (bb_bounds (fold expandBy vs bb)) = length (bb_bounds bb)"
  by (induction vs arbitrary: bb) (simp_all add: expandBy_length)

lemma fold_expandBy_dimensions:
  "bb_dimensions (fold expandBy vs bb) = bb_dimensions bb"
  by (induction vs arbitrary: bb) (simp_all add: expandBy_def)

lemma expandBy_bounds:
  assumes "d < length (bb_bounds bb)"
  shows "fst (bb_bounds (expandBy v bb) ! d) = min (vertex_coords v ! d) (fst (bb_bounds bb ! d))"
    and "snd (bb_bounds (expandBy v bb) ! d) = max (vertex_coords v ! d) (snd (bb_bounds bb ! d))"
  using assms by (simp_all add: expandBy_def)

lemma fold_expandBy_monotone:
  assumes "d < length (bb_bounds bb)"
  shows "fst (bb_bounds (fold expandBy vs bb) ! d) \<le> fst (bb_bounds bb ! d)
       \<and> snd (bb_bounds bb ! d) \<le> snd (bb_bounds (fold expandBy vs bb) ! d)"
  using assms
proof (induction vs arbitrary: bb)
  case Nil
  then show ?case by simp
next
  case (Cons v vs)
  from Cons.prems have d: "d < length (bb_bounds (expandBy v bb))"
    by (simp add: expandBy_length)
  from Cons.IH [OF d] expandBy_bounds [OF Cons.prems, of v]
  show ?case by (simp add: min_le_iff_disj le_max_iff_disj)
qed

lemma fold_expandBy_contains:
  assumes "v \<in> set vs" and "d < length (bb_bounds bb)"
  shows "fst (bb_bounds (fold expandBy vs bb) ! d) \<le> vertex_coords v ! d
       \<and> vertex_coords v ! d \<le> snd (bb_bounds (fold expandBy vs bb) ! d)"
  using assms
proof (induction vs arbitrary: bb)
  case Nil
  then show ?case by simp
next
  case (Cons w vs)
  have d: "d < length (bb_bounds (expandBy w bb))"
    using Cons.prems(2) by (simp add: expandBy_length)
  show ?case
  proof (cases "v \<in> set vs")
    case True
    from Cons.IH [OF True d] show ?thesis by simp
  next
    case False
    with Cons.prems(1) have "v = w" by simp
    with fold_expandBy_monotone [OF d, of vs] expandBy_bounds [OF Cons.prems(2), of w]
    show ?thesis by (simp add: min_le_iff_disj le_max_iff_disj)
  qed
qed

text \<open>
  Claim C6. After \<open>Mesh::computeBoundingBox\<close> the bounding box of the mesh contains every
  vertex of the mesh: in each dimension \<open>d\<close> of the mesh, the minimum of the box is at most
  the \<open>d\<close>-coordinate of every vertex and the maximum is at least that coordinate. The box
  has one pair of bounds per dimension of the mesh, and the vertices are unchanged.
\<close>

theorem computeBoundingBox_contains_vertices:
  assumes "v \<in> set (mesh_vertices m)" and "d < nat (mesh_dimensions m)"
  shows "mesh_vertices (computeBoundingBox m) = mesh_vertices m
       \<and> length (bb_bounds (mesh_boundingBox (computeBoundingBox m))) = nat (mesh_dimensions m)
       \<and> fst (bb_bounds (mesh_boundingBox (computeBoundingBox m)) ! d) \<le> vertex_coords v ! d
       \<and> vertex_coords v ! d \<le> snd (bb_bounds (mesh_boundingBox (computeBoundingBox m)) ! d)"
proof -
  have d: "d < length (bb_bounds (BoundingBox_ctor (mesh_dimensions m)))"
    using assms(2) by (simp add: BoundingBox_ctor_def)
  from fold_expandBy_contains [OF assms(1) d]
  show ?thesis
    by (simp add: computeBoundingBox_def fold_expandBy_length BoundingBox_ctor_def)
qed

theorem computeBoundingBox_contains_vertices_witness:
  "Vertex_ctor [1, 1, 5] 2 \<in> set (mesh_vertices example_mesh)
 \<and> (2::nat) < nat (mesh_dimensions example_mesh)
 \<and> fst (bb_bounds (mesh_boundingBox (computeBoundingBox example_mesh)) ! 2) \<le> 5
 \<and> 5 \<le> snd (bb_bounds (mesh_boundingBox (computeBoundingBox example_mesh)) ! 2)"
proof -
  have v: "Vertex_ctor [1, 1, 5] 2 \<in> set (mesh_vertices example_mesh)"
    by (simp add: example_mesh_def example_vertices_def)
  have d: "(2::nat) < nat (mesh_dimensions example_mesh)"
    by (simp add: example_mesh_def)
  from computeBoundingBox_contains_vertices [OF v d] v d
  show ?thesis by (simp add: Vertex_ctor_def)
qed

section \<open>Data ids\<close>

lemma createData_Inr:
  assumes "createData name dimension (m, c) = Inr ((m', c'), d)"
  shows "data_id d = c" and "c' = c + 1" and "mesh_data m' = mesh_data m @ [d]"
    and "data_name d = name" and "data_dimensions d = dimension"
    and "mesh_dimensions m' = mesh_dimensions m"
    and "mesh_triangles m' = mesh_triangles m"
    and "mesh_manageTriangleIDs m' = mesh_manageTriangleIDs m"
  using assms
  by (auto simp: createData_def Let_def getDataCount_def Data_ctor_def split: if_splits)

lemma createData_calls_ids:
  assumes "createData_calls calls (ms, c) = Inr ((ms', c'), ds)"
  shows "map data_id ds = map (\<lambda>k. c + int k) [0..<length ds] \<and> c' = c + int (length ds)
       \<and> length ds = length calls"
  using assms
proof (induction calls arbitrary: ms c ds)
  case Nil
  then show ?case by simp
next
  case (Cons call rest)
  obtain i name dimension where call: "call = (i, name, dimension)"
    by (cases call) auto
  from Cons.prems call obtain m1 c1 d ds1 where
    first: "createData name dimension (ms ! i, c) = Inr ((m1, c1), d)"
    and rest: "createData_calls rest (ms[i := m1], c1) = Inr ((ms', c'), ds1)"
    and ds: "ds = d # ds1"
    by (auto split: if_splits sum.splits)
  from createData_Inr(1,2) [OF first] have d: "data_id d = c" and c1: "c1 = c + 1"
    by simp_all
  from Cons.IH [OF rest] have
    ih: "map data_id ds1 = map (\<lambda>k. c1 + int k) [0..<length ds1]"
    and c': "c' = c1 + int (length ds1)" and len: "length ds1 = length rest"
    by simp_all
  have "map (\<lambda>k. c + int k) [0..<length ds] =
        c # map (\<lambda>k. c + int k) (map Suc [0..<length ds1])"
    by (simp add: ds upt_conv_Cons map_Suc_upt del: upt_Suc)
  also have "\<dots> = c # map (\<lambda>k. c1 + int k) [0..<length ds1]"
    by (simp add: c1 del: upt_Suc)
  finally show ?case
    using ih d c' len by (simp add: ds c1 call)
qed

text \<open>
  Claim C3. For any sequence of successful \<open>Mesh::createData\<close> calls, on any meshes, every
  created \<open>Data\<close> object gets an id different from the ids of all \<open>Data\<close> objects created
  before it: the ids are the successive values of the process-wide counter, starting at
  its value before the first call, so they are pairwise distinct and each is larger than
  every id handed out earlier.
\<close>

theorem createData_ids_unique:
  assumes "createData_calls calls (ms, c) = Inr ((ms', c'), ds)"
  shows "distinct (map data_id ds)
       \<and> map data_id ds = map (\<lambda>k. c + int k) [0..<length calls]
       \<and> (\<forall>j < length ds. \<forall>i < j. data_id (ds ! i) < data_id (ds ! j))
       \<and> c' = c + int (length calls)"
proof -
  from createData_calls_ids [OF assms] have
    ids: "map data_id ds = map (\<lambda>k. c + int k) [0..<length ds]"
    and c': "c' = c + int (length ds)" and len: "length ds = length calls"
    by simp_all
  have "distinct (map (\<lambda>k. c + int k) [0..<length ds])"
    by (simp add: distinct_map inj_on_def)
  then have dist: "distinct (map data_id ds)"
    using ids by simp
  have nth: "data_id (ds ! j) = c + int j" if "j < length ds" for j
  proof -
    have "data_id (ds ! j) = map data_id ds ! j"
      using that by simp
    also have "\<dots> = c + int j"
      using that by (simp only: ids) simp
    finally show ?thesis .
  qed
  have "\<forall>j < length ds. \<forall>i < j. data_id (ds ! i) < data_id (ds ! j)"
    by (auto simp: nth)
  with dist ids c' len show ?thesis by simp
qed

theorem createData_ids_unique_witness:
  "map data_id
     (snd (projr (createData_calls
        [(0, ''Forces'', 3), (1, ''Forces'', 3), (0, ''Velocities'', 3)]
        ([example_mesh\<lparr>mesh_data := []\<rparr>, example_mesh\<lparr>mesh_data := []\<rparr>], 5))))
   = [5, 6, 7]"
proof -
  have run: "createData_calls
        [(0, ''Forces'', 3), (1, ''Forces'', 3), (0, ''Velocities'', 3)]
        ([example_mesh\<lparr>mesh_data := []\<rparr>, example_mesh\<lparr>mesh_data := []\<rparr>], 5)
      = Inr (fst (projr (createData_calls
        [(0, ''Forces'', 3), (1, ''Forces'', 3), (0, ''Velocities'', 3)]
        ([example_mesh\<lparr>mesh_data := []\<rparr>, example_mesh\<lparr>mesh_data := []\<rparr>], 5))),
          snd (projr (createData_calls
        [(0, ''Forces'', 3), (1, ''Forces'', 3), (0, ''Velocities'', 3)]
        ([example_mesh\<lparr>mesh_data := []\<rparr>, example_mesh\<lparr>mesh_data := []\<rparr>], 5))))"
    by (simp add: createData_def Let_def getDataCount_def Data_ctor_def)
  obtain ms' c' where w: "fst (projr (createData_calls
        [(0, ''Forces'', 3), (1, ''Forces'', 3), (0, ''Velocities'', 3)]
        ([example_mesh\<lparr>mesh_data := []\<rparr>, example_mesh\<lparr>mesh_data := []\<rparr>], 5))) = (ms', c')"
    by (cases "fst (projr (createData_calls
        [(0, ''Forces'', 3), (1, ''Forces'', 3), (0, ''Velocities'', 3)]
        ([example_mesh\<lparr>mesh_data := []\<rparr>, example_mesh\<lparr>mesh_data := []\<rparr>], 5)))") auto
  from createData_ids_unique [OF run [unfolded w]]
  show ?thesis by (simp add: upt_rec)
qed

section \<open>The dimensionality of a mesh\<close>

lemma createVertex_Inr:
  assumes "createVertex coords m = Inr (m', v)"
  shows "v = length (mesh_vertices m)"
    and "mesh_vertices m' = mesh_vertices m @ [Vertex_ctor coords (mesh_manageVertexIDs m)]"
    and "int (length coords) = mesh_dimensions m"
    and "mesh_dimensions m' = mesh_dimensions m"
    and "mesh_edges m' = mesh_edges m"
    and "mesh_triangles m' = mesh_triangles m"
    and "mesh_quads m' = mesh_quads m"
    and "mesh_manageEdgeIDs m' = mesh_manageEdgeIDs m"
    and "mesh_manageTriangleIDs m' = mesh_manageTriangleIDs m"
  using assms
  by (auto simp: createVertex_def getFreeID_def split: if_splits)

lemma createEdge_simps:
  "mesh_edges (fst (createEdge p q m)) =
     mesh_edges m @ [Edge_ctor p q (mesh_manageEdgeIDs m) (mesh_dimensions m)]"
  "snd (createEdge p q m) = length (mesh_edges m)"
  "mesh_vertices (fst (createEdge p q m)) = mesh_vertices m"
  "mesh_dimensions (fst (createEdge p q m)) = mesh_dimensions m"
  "mesh_triangles (fst (createEdge p q m)) = mesh_triangles m"
  "mesh_quads (fst (createEdge p q m)) = mesh_quads m"
  "mesh_manageTriangleIDs (fst (createEdge p q m)) = mesh_manageTriangleIDs m"
  by (simp_all add: createEdge_def getFreeID_def)

lemma createQuad_simps:
  "mesh_quads (fst (createQuad a b c d m)) =
     mesh_quads m @ [Quad_ctor a b c d (mesh_manageQuadIDs m)]"
  "mesh_dimensions (fst (createQuad a b c d m)) = mesh_dimensions m"
  "mesh_triangles (fst (createQuad a b c d m)) = mesh_triangles m"
  "mesh_manageTriangleIDs (fst (createQuad a b c d m)) = mesh_manageTriangleIDs m"
  by (simp_all add: createQuad_def getFreeID_def)

lemma createTriangle_Inr:
  assumes "createTriangle a b c m = Inr (m', t)"
  shows "t = length (mesh_triangles m)"
    and "mesh_triangles m' = mesh_triangles m @ [Triangle_ctor a b c (mesh_manageTriangleIDs m)]"
    and "mesh_manageTriangleIDs m' = mesh_manageTriangleIDs m + 1"
    and "mesh_dimensions m' = mesh_dimensions m"
    and "mesh_vertices m' = mesh_vertices m"
    and "mesh_edges m' = mesh_edges m"
    and "mesh_quads m' = mesh_quads m"
  using assms
  by (auto simp: createTriangle_def getFreeID_def split: if_splits sum.splits)

lemma createUniqueEdge_frame:
  assumes "createUniqueEdge p q m = Inr (m', e)"
  shows "mesh_dimensions m' = mesh_dimensions m"
    and "mesh_vertices m' = mesh_vertices m"
    and "mesh_triangles m' = mesh_triangles m"
    and "mesh_quads m' = mesh_quads m"
    and "mesh_manageTriangleIDs m' = mesh_manageTriangleIDs m"
  using assms
  by (auto simp: createUniqueEdge_def createEdge_def getFreeID_def
      split: sum.splits option.splits)

lemma update_vertex_simps:
  "mesh_dimensions (update_vertex r f m) = mesh_dimensions m"
  "mesh_edges (update_vertex r f m) = mesh_edges m"
  "mesh_triangles (update_vertex r f m) = mesh_triangles m"
  "mesh_quads (update_vertex r f m) = mesh_quads m"
  "mesh_manageEdgeIDs (update_vertex r f m) = mesh_manageEdgeIDs m"
  "mesh_manageTriangleIDs (update_vertex r f m) = mesh_manageTriangleIDs m"
  "mesh_manageVertexIDs (update_vertex r f m) = mesh_manageVertexIDs m"
  "length (mesh_vertices (update_vertex r f m)) = length (mesh_vertices m)"
  by (simp_all add: update_vertex_def)

lemma addMesh_vertices_frame:
  assumes "addMesh_vertices dvs m vertexMap = Inr (m', vertexMap')"
  shows "mesh_dimensions m' = mesh_dimensions m \<and> mesh_edges m' = mesh_edges m
       \<and> mesh_triangles m' = mesh_triangles m \<and> mesh_quads m' = mesh_quads m
       \<and> mesh_manageTriangleIDs m' = mesh_manageTriangleIDs m"
  using assms
proof (induction dvs arbitrary: m vertexMap)
  case Nil
  then show ?case by simp
next
  case (Cons vertex rest)
  from Cons.prems obtain m1 v where
    cv: "createVertex (vertex_coords vertex) m = Inr (m1, v)"
    by (auto split: sum.splits)
  let ?m2 = "update_vertex v (setGlobalIndex (vertex_globalIndex vertex)) m1"
  let ?m3 = "if vertex_tagged vertex then update_vertex v tag ?m2 else ?m2"
  let ?m4 = "update_vertex v (setOwner (vertex_owner vertex)) ?m3"
  from Cons.prems cv have
    rest: "addMesh_vertices rest ?m4 (vertexMap(vertex_id vertex \<mapsto> v)) = Inr (m', vertexMap')"
    by (simp add: Let_def split: if_splits)
  from Cons.IH [OF rest] createVertex_Inr [OF cv]
  show ?case by (simp add: update_vertex_simps)
qed

lemma addMesh_edges_frame:
  assumes "addMesh_edges dvs vertexMap des m edgeMap = Inr (m', edgeMap')"
  shows "mesh_dimensions m' = mesh_dimensions m \<and> mesh_vertices m' = mesh_vertices m
       \<and> mesh_triangles m' = mesh_triangles m \<and> mesh_quads m' = mesh_quads m
       \<and> mesh_manageTriangleIDs m' = mesh_manageTriangleIDs m"
  using assms
proof (induction des arbitrary: m edgeMap)
  case Nil
  then show ?case by simp
next
  case (Cons edge rest)
  from Cons.prems obtain vids p q where
    rest: "addMesh_edges dvs vertexMap rest (fst (createEdge p q m))
             (edgeMap(edge_id edge \<mapsto> snd (createEdge p q m))) = Inr (m', edgeMap')"
    by (auto split: sum.splits option.splits)
  from Cons.IH [OF rest] show ?case
    by (simp add: createEdge_simps)
qed

lemma addMesh_triangles_frame:
  assumes "addMesh_triangles des edgeMap dts m = Inr m'"
  shows "mesh_dimensions m' = mesh_dimensions m \<and> mesh_vertices m' = mesh_vertices m
       \<and> mesh_edges m' = mesh_edges m \<and> mesh_quads m' = mesh_quads m"
  using assms
proof (induction dts arbitrary: m)
  case Nil
  then show ?case by simp
next
  case (Cons triangle rest)
  from Cons.prems obtain a b c m1 t where
    ct: "createTriangle a b c m = Inr (m1, t)"
    and rest: "addMesh_triangles des edgeMap rest m1 = Inr m'"
    by (auto split: sum.splits option.splits prod.splits)
  from Cons.IH [OF rest] createTriangle_Inr [OF ct] show ?case
    by simp
qed

lemma addMesh_Inr:
  assumes "addMesh deltaMesh m = Inr m'"
  shows "\<exists>m1 vertexMap m2 edgeMap.
      mesh_dimensions m = mesh_dimensions deltaMesh
    \<and> addMesh_vertices (mesh_vertices deltaMesh) m Map.empty = Inr (m1, vertexMap)
    \<and> addMesh_edges (mesh_vertices deltaMesh) vertexMap (mesh_edges deltaMesh) m1 Map.empty
         = Inr (m2, edgeMap)
    \<and> (if mesh_dimensions m2 = 3
        then addMesh_triangles (mesh_edges deltaMesh) edgeMap (mesh_triangles deltaMesh) m2
               = Inr m'
        else m' = m2)"
  using assms
  by (auto simp: addMesh_def getDimensions_def split: if_splits sum.splits prod.splits)

lemma addMesh_dimensions:
  assumes "addMesh deltaMesh m = Inr m'"
  shows "mesh_dimensions m' = mesh_dimensions m"
proof -
  from addMesh_Inr [OF assms] obtain m1 vertexMap m2 edgeMap where
    v: "addMesh_vertices (mesh_vertices deltaMesh) m Map.empty = Inr (m1, vertexMap)"
    and e: "addMesh_edges (mesh_vertices deltaMesh) vertexMap (mesh_edges deltaMesh) m1 Map.empty
       = Inr (m2, edgeMap)"
    and t: "if mesh_dimensions m2 = 3
        then addMesh_triangles (mesh_edges deltaMesh) edgeMap (mesh_triangles deltaMesh) m2
               = Inr m'
        else m' = m2"
    by blast
  have "mesh_dimensions m' = mesh_dimensions m2"
    using t addMesh_triangles_frame by (cases "mesh_dimensions m2 = 3") auto
  with addMesh_vertices_frame [OF v] addMesh_edges_frame [OF e] show ?thesis
    by simp
qed

lemma computeState_frame:
  assumes "computeState K m = Inr m'"
  shows "mesh_dimensions m' = mesh_dimensions m \<and> mesh_triangles m' = mesh_triangles m
       \<and> mesh_quads m' = mesh_quads m \<and> mesh_manageTriangleIDs m' = mesh_manageTriangleIDs m
       \<and> mesh_data m' = mesh_data m"
  using assms
  by (auto simp: computeState_def split: if_splits sum.splits)

lemma apply_op_dimensions:
  assumes "apply_op K op (m, c) = Inr (m', c')"
  shows "mesh_dimensions m' = mesh_dimensions m"
proof (cases op)
  case (CreateVertex coords)
  with assms show ?thesis
    by (auto split: sum.splits dest: createVertex_Inr(4))
next
  case (CreateEdge p q)
  with assms show ?thesis
    by (auto simp: createEdge_simps)
next
  case (CreateUniqueEdge p q)
  with assms show ?thesis
    by (auto split: sum.splits dest: createUniqueEdge_frame(1))
next
  case (CreateTriangle a b c)
  with assms show ?thesis
    by (auto split: sum.splits dest: createTriangle_Inr(4))
next
  case (CreateQuad a b c d)
  with assms show ?thesis
    by (auto simp: createQuad_simps)
next
  case (CreateData name dimension)
  with assms show ?thesis
    by (auto split: sum.splits dest: createData_Inr(6))
next
  case AllocateDataValues
  with assms show ?thesis
    by (auto simp: allocateDataValues_def)
next
  case ComputeBoundingBox
  with assms show ?thesis
    by (auto simp: computeBoundingBox_def)
next
  case ComputeState
  with assms show ?thesis
    by (auto split: sum.splits dest: computeState_frame)
next
  case Clear
  with assms show ?thesis
    by (auto simp: clear_def)
next
  case (AddMesh deltaMesh)
  with assms show ?thesis
    by (auto split: sum.splits dest: addMesh_dimensions)
qed

lemma run_ops_dimensions:
  assumes "run_ops K ops (m, c) = Inr (m', c')"
  shows "mesh_dimensions m' = mesh_dimensions m"
  using assms
proof (induction ops arbitrary: m c)
  case Nil
  then show ?case by simp
next
  case (Cons op ops)
  from Cons.prems obtain m1 c1 where
    first: "apply_op K op (m, c) = Inr (m1, c1)"
    and rest: "run_ops K ops (m1, c1) = Inr (m', c')"
    by (auto split: sum.splits)
  from Cons.IH [OF rest] apply_op_dimensions [OF first] show ?case
    by simp
qed

lemma Mesh_ctor_Inr:
  assumes "Mesh_ctor name d flipNormals ident = Inr m"
  shows "d = 2 \<or> d = 3" and "mesh_dimensions m = d" and "mesh_triangles m = []"
    and "mesh_manageTriangleIDs m = 0" and "mesh_vertices m = []" and "mesh_edges m = []"
  using assms by (auto simp: Mesh_ctor_def split: if_splits)

text \<open>
  Claim C5. The dimensionality of every mesh is 2 or 3: constructing a mesh with another
  dimensionality fails an assertion. \<open>getDimensions\<close> returns the same value during the
  whole lifetime of the mesh: after any sequence of the operations createVertex,
  createEdge, createUniqueEdge, createTriangle, createQuad, createData,
  allocateDataValues, clear, addMesh, computeState and computeBoundingBox that runs
  without an abort, it is still the dimensionality the mesh was constructed with.
\<close>

theorem mesh_dimensions_fixed:
  "(d \<noteq> 2 \<and> d \<noteq> 3 \<longrightarrow> Mesh_ctor name d flipNormals ident = Inl AssertionFailed)
 \<and> (Mesh_ctor name d flipNormals ident = Inr m0 \<and> run_ops K ops (m0, c0) = Inr (m, c)
      \<longrightarrow> (d = 2 \<or> d = 3) \<and> getDimensions m0 = d \<and> getDimensions m = d)"
proof (intro conjI impI)
  assume "d \<noteq> 2 \<and> d \<noteq> 3"
  then show "Mesh_ctor name d flipNormals ident = Inl AssertionFailed"
    by (simp add: Mesh_ctor_def)
next
  assume a: "Mesh_ctor name d flipNormals ident = Inr m0 \<and> run_ops K ops (m0, c0) = Inr (m, c)"
  then show "d = 2 \<or> d = 3"
    using Mesh_ctor_Inr(1) by blast
  from a have m0: "mesh_dimensions m0 = d"
    by (auto dest: Mesh_ctor_Inr(2))
  then show "getDimensions m0 = d"
    by (simp add: getDimensions_def)
  from a run_ops_dimensions [of K ops m0 c0 m c] m0 show "getDimensions m = d"
    by (simp add: getDimensions_def)
qed

lemma allocateDataValues_frame:
  "mesh_dimensions (allocateDataValues u m) = mesh_dimensions m"
  "mesh_vertices (allocateDataValues u m) = mesh_vertices m"
  "mesh_edges (allocateDataValues u m) = mesh_edges m"
  "mesh_triangles (allocateDataValues u m) = mesh_triangles m"
  "mesh_quads (allocateDataValues u m) = mesh_quads m"
  "mesh_flipNormals (allocateDataValues u m) = mesh_flipNormals m"
  "mesh_manageTriangleIDs (allocateDataValues u m) = mesh_manageTriangleIDs m"
  by (simp_all add: allocateDataValues_def)

lemma computeBoundingBox_frame:
  "mesh_dimensions (computeBoundingBox m) = mesh_dimensions m"
  "mesh_vertices (computeBoundingBox m) = mesh_vertices m"
  "mesh_edges (computeBoundingBox m) = mesh_edges m"
  "mesh_triangles (computeBoundingBox m) = mesh_triangles m"
  "mesh_quads (computeBoundingBox m) = mesh_quads m"
  "mesh_flipNormals (computeBoundingBox m) = mesh_flipNormals m"
  "mesh_manageTriangleIDs (computeBoundingBox m) = mesh_manageTriangleIDs m"
  by (simp_all add: computeBoundingBox_def)

lemma clear_frame:
  "mesh_dimensions (clear u m) = mesh_dimensions m"
  "mesh_triangles (clear u m) = []"
  "mesh_manageTriangleIDs (clear u m) = 0"
  by (simp_all add: clear_def resetIDs_def)

lemmas example_evaluation =
  createVertex_def createEdge_def createUniqueEdge_def createTriangle_def createData_def
  getFreeID_def Vertex_ctor_def Edge_ctor_def Triangle_ctor_def vertex_at_def edge_at_def
  edge_vertex_ids_def connectedTo_def getDataCount_def Data_ctor_def Mesh_ctor_def

theorem mesh_dimensions_fixed_witness:
  "Mesh_ctor ''Square'' 4 False 0 = Inl AssertionFailed
 \<and> Mesh_ctor ''Square'' 3 False 0 = Inr (projr (Mesh_ctor ''Square'' 3 False 0))
 \<and> getDimensions (fst (projr (run_ops example_kernels example_lifetime
        (projr (Mesh_ctor ''Square'' 3 False 0), 0)))) = 3"
proof -
  let ?m0 = "projr (Mesh_ctor ''Square'' 3 False 0)"
  let ?r = "projr (run_ops example_kernels example_lifetime (?m0, 0))"
  have ctor: "Mesh_ctor ''Square'' 3 False 0 = Inr ?m0"
    by (simp add: Mesh_ctor_def)
  have run: "run_ops example_kernels example_lifetime (?m0, 0) = Inr (fst ?r, snd ?r)"
    by (simp add: example_lifetime_def example_evaluation computeState_def
        allocateDataValues_frame computeBoundingBox_frame)
  from mesh_dimensions_fixed [of 4 "''Square''" False 0]
  have "Mesh_ctor ''Square'' 4 False 0 = Inl AssertionFailed"
    by simp
  moreover from mesh_dimensions_fixed [of 3 "''Square''" False 0 ?m0 example_kernels
      example_lifetime 0 "fst ?r" "snd ?r"] ctor run
  have "getDimensions (fst ?r) = 3"
    by blast
  ultimately show ?thesis
    using ctor by blast
qed

section \<open>Creating triangles\<close>

lemma addMesh_triangles_ids:
  assumes "addMesh_triangles des edgeMap dts m = Inr m'"
    and "\<forall>t \<in> set (mesh_triangles m). triangle_id t < mesh_manageTriangleIDs m"
  shows "\<forall>t \<in> set (mesh_triangles m'). triangle_id t < mesh_manageTriangleIDs m'"
  using assms
proof (induction dts arbitrary: m)
  case Nil
  then show ?case by simp
next
  case (Cons triangle rest)
  from Cons.prems(1) obtain a b c m1 t where
    ct: "createTriangle a b c m = Inr (m1, t)"
    and rest: "addMesh_triangles des edgeMap rest m1 = Inr m'"
    by (auto split: sum.splits option.splits prod.splits)
  have "\<forall>t \<in> set (mesh_triangles m1). triangle_id t < mesh_manageTriangleIDs m1"
    using createTriangle_Inr(2,3) [OF ct] Cons.prems(2)
    by (auto simp: Triangle_ctor_def)
  with Cons.IH [OF rest] show ?case
    by blast
qed

lemma addMesh_triangle_ids:
  assumes "addMesh deltaMesh m = Inr m'"
    and "\<forall>t \<in> set (mesh_triangles m). triangle_id t < mesh_manageTriangleIDs m"
  shows "\<forall>t \<in> set (mesh_triangles m'). triangle_id t < mesh_manageTriangleIDs m'"
proof -
  from addMesh_Inr [OF assms(1)] obtain m1 vertexMap m2 edgeMap where
    v: "addMesh_vertices (mesh_vertices deltaMesh) m Map.empty = Inr (m1, vertexMap)"
    and e: "addMesh_edges (mesh_vertices deltaMesh) vertexMap (mesh_edges deltaMesh) m1 Map.empty
       = Inr (m2, edgeMap)"
    and t: "if mesh_dimensions m2 = 3
        then addMesh_triangles (mesh_edges deltaMesh) edgeMap (mesh_triangles deltaMesh) m2
               = Inr m'
        else m' = m2"
    by blast
  have m2: "\<forall>t \<in> set (mesh_triangles m2). triangle_id t < mesh_manageTriangleIDs m2"
    using addMesh_vertices_frame [OF v] addMesh_edges_frame [OF e] assms(2) by simp
  show ?thesis
  proof (cases "mesh_dimensions m2 = 3")
    case True
    with t have "addMesh_triangles (mesh_edges deltaMesh) edgeMap (mesh_triangles deltaMesh) m2
               = Inr m'"
      by simp
    from addMesh_triangles_ids [OF this m2] show ?thesis .
  next
    case False
    with t m2 show ?thesis by simp
  qed
qed

lemma apply_op_triangle_ids:
  assumes "apply_op K op (m, c) = Inr (m', c')"
    and "\<forall>t \<in> set (mesh_triangles m). triangle_id t < mesh_manageTriangleIDs m"
  shows "\<forall>t \<in> set (mesh_triangles m'). triangle_id t < mesh_manageTriangleIDs m'"
proof (cases op)
  case (CreateVertex coords)
  with assms(1) obtain v where "createVertex coords m = Inr (m', v)"
    by (auto split: sum.splits)
  from createVertex_Inr(6,9) [OF this] assms(2) show ?thesis
    by simp
next
  case (CreateEdge p q)
  with assms show ?thesis
    by (auto simp: createEdge_simps)
next
  case (CreateUniqueEdge p q)
  with assms(1) obtain e where "createUniqueEdge p q m = Inr (m', e)"
    by (auto split: sum.splits)
  from createUniqueEdge_frame(3,5) [OF this] assms(2) show ?thesis
    by simp
next
  case (CreateTriangle a b c)
  with assms(1) obtain t where ct: "createTriangle a b c m = Inr (m', t)"
    by (auto split: sum.splits)
  from createTriangle_Inr(2,3) [OF ct] assms(2) show ?thesis
    by (auto simp: Triangle_ctor_def)
next
  case (CreateQuad a b c d)
  with assms show ?thesis
    by (auto simp: createQuad_simps)
next
  case (CreateData name dimension)
  with assms(1) obtain d where "createData name dimension (m, c) = Inr ((m', c'), d)"
    by (auto split: sum.splits)
  from createData_Inr(7,8) [OF this] assms(2) show ?thesis
    by simp
next
  case AllocateDataValues
  with assms show ?thesis
    by (auto simp: allocateDataValues_frame)
next
  case ComputeBoundingBox
  with assms show ?thesis
    by (auto simp: computeBoundingBox_frame)
next
  case ComputeState
  with assms(1) have "computeState K m = Inr m'"
    by (auto split: sum.splits)
  from computeState_frame [OF this] assms(2) show ?thesis
    by simp
next
  case Clear
  with assms show ?thesis
    by (auto simp: clear_frame)
next
  case (AddMesh deltaMesh)
  with assms(1) have "addMesh deltaMesh m = Inr m'"
    by (auto split: sum.splits)
  from addMesh_triangle_ids [OF this assms(2)] show ?thesis .
qed

lemma run_ops_triangle_ids:
  assumes "run_ops K ops (m, c) = Inr (m', c')"
    and "\<forall>t \<in> set (mesh_triangles m). triangle_id t < mesh_manageTriangleIDs m"
  shows "\<forall>t \<in> set (mesh_triangles m'). triangle_id t < mesh_manageTriangleIDs m'"
  using assms
proof (induction ops arbitrary: m c)
  case Nil
  then show ?case by simp
next
  case (Cons op ops)
  from Cons.prems(1) obtain m1 c1 where
    first: "apply_op K op (m, c) = Inr (m1, c1)"
    and rest: "run_ops K ops (m1, c1) = Inr (m', c')"
    by (auto split: sum.splits)
  from Cons.IH [OF rest apply_op_triangle_ids [OF first Cons.prems(2)]] show ?case .
qed

text \<open>
  Claim C8. \<open>Mesh::createTriangle\<close> aborts with the fatal error "Edges are not connected!"
  unless the three edges are connected in the cycle edgeOne, edgeTwo, edgeThree, edgeOne;
  then no triangle is added (the call yields no new mesh). When the check holds, exactly
  one triangle is appended to the triangles of the mesh; it references the three edges
  and its id is fresh, that is, different from the id of every triangle of the mesh. The
  mesh is any mesh reached from its constructor by mesh operations, and the edges are
  edges of the mesh.
\<close>

theorem createTriangle_connected_edges:
  assumes "Mesh_ctor name d flipNormals ident = Inr m0"
    and "run_ops K ops (m0, c0) = Inr (m, c)"
    and "edgeOne < length (mesh_edges m)" and "edgeTwo < length (mesh_edges m)"
    and "edgeThree < length (mesh_edges m)"
  shows "if connectedTo (mesh_edges m ! edgeOne) (mesh_edges m ! edgeTwo)
          \<and> connectedTo (mesh_edges m ! edgeTwo) (mesh_edges m ! edgeThree)
          \<and> connectedTo (mesh_edges m ! edgeThree) (mesh_edges m ! edgeOne)
         then \<exists>m' t. createTriangle edgeOne edgeTwo edgeThree m
                        = Inr (m', length (mesh_triangles m))
                \<and> mesh_triangles m' = mesh_triangles m @ [t]
                \<and> triangle_edges t = (edgeOne, edgeTwo, edgeThree)
                \<and> triangle_id t \<notin> triangle_id ` set (mesh_triangles m)
                \<and> mesh_vertices m' = mesh_vertices m \<and> mesh_edges m' = mesh_edges m
                \<and> mesh_quads m' = mesh_quads m
         else createTriangle edgeOne edgeTwo edgeThree m
                = Inl (CheckFailed ''Edges are not connected!'')"
proof -
  have "\<forall>t \<in> set (mesh_triangles m0). triangle_id t < mesh_manageTriangleIDs m0"
    using Mesh_ctor_Inr(3) [OF assms(1)] by simp
  from run_ops_triangle_ids [OF assms(2) this]
  have below: "\<forall>t \<in> set (mesh_triangles m). triangle_id t < mesh_manageTriangleIDs m" .
  then have fresh: "mesh_manageTriangleIDs m \<notin> triangle_id ` set (mesh_triangles m)"
    by auto
  show ?thesis
    using assms(3-5) fresh
    by (simp add: createTriangle_def edge_at_def getFreeID_def Triangle_ctor_def)
qed

lemma example_run:
  "run_ops example_kernels example_ops (projr (Mesh_ctor ''Square'' 3 False 0), 0)
     = Inr (example_triangle_mesh, 0)"
  unfolding example_triangle_mesh_def
  by (simp add: example_ops_def example_evaluation)

lemma example_triangle_mesh_simps:
  "mesh_vertices example_triangle_mesh =
     [Vertex_ctor [0, 0, 0] 0, Vertex_ctor [1, 0, 0] 1, Vertex_ctor [0, 1, 0] 2,
      Vertex_ctor [5, 5, 5] 3, Vertex_ctor [6, 5, 5] 4]"
  "mesh_edges example_triangle_mesh =
     [Edge_ctor 0 1 0 3, Edge_ctor 1 2 1 3, Edge_ctor 2 0 2 3, Edge_ctor 3 4 3 3]"
  "mesh_triangles example_triangle_mesh = [Triangle_ctor 0 1 2 0]"
  "mesh_quads example_triangle_mesh = []"
  "mesh_dimensions example_triangle_mesh = 3"
  "mesh_manageQuadIDs example_triangle_mesh = 0"
  unfolding example_triangle_mesh_def
  by (simp_all add: example_ops_def example_evaluation)

theorem createTriangle_connected_edges_witness:
  "Mesh_ctor ''Square'' 3 False 0 = Inr (projr (Mesh_ctor ''Square'' 3 False 0))
 \<and> run_ops example_kernels example_ops (projr (Mesh_ctor ''Square'' 3 False 0), 0)
     = Inr (example_triangle_mesh, 0)
 \<and> map triangle_id (mesh_triangles example_triangle_mesh) = [0]
 \<and> (\<exists>m' t. createTriangle 0 1 2 example_triangle_mesh = Inr (m', 1)
        \<and> mesh_triangles m' = mesh_triangles example_triangle_mesh @ [t]
        \<and> triangle_edges t = (0, 1, 2) \<and> triangle_id t \<noteq> 0)
 \<and> createTriangle 0 1 3 example_triangle_mesh = Inl (CheckFailed ''Edges are not connected!'')"
proof -
  let ?m0 = "projr (Mesh_ctor ''Square'' 3 False 0)"
  have ctor: "Mesh_ctor ''Square'' 3 False 0 = Inr ?m0"
    by (simp add: Mesh_ctor_def)
  have ids: "map triangle_id (mesh_triangles example_triangle_mesh) = [0]"
    by (simp add: example_triangle_mesh_simps Triangle_ctor_def)
  have good: "\<exists>m' t. createTriangle 0 1 2 example_triangle_mesh = Inr (m', 1)
        \<and> mesh_triangles m' = mesh_triangles example_triangle_mesh @ [t]
        \<and> triangle_edges t = (0, 1, 2) \<and> triangle_id t \<noteq> 0"
    using createTriangle_connected_edges [OF ctor example_run, of 0 1 2]
    by (simp add: example_triangle_mesh_simps Edge_ctor_def Triangle_ctor_def connectedTo_def)
      blast
  have bad: "createTriangle 0 1 3 example_triangle_mesh
      = Inl (CheckFailed ''Edges are not connected!'')"
    using createTriangle_connected_edges [OF ctor example_run, of 0 1 3]
    by (simp add: example_triangle_mesh_simps Edge_ctor_def connectedTo_def)
  from ctor example_run ids good bad show ?thesis
    by blast
qed

section \<open>Unique edges\<close>

lemma is_permutation_same: "is_permutation [a, b] [a, b]"
  by simp

lemma find_edge_Some:
  assumes "find_edge vs vids es k = Inr (Some p)"
  shows "k \<le> p \<and> p < k + length es
       \<and> (\<exists>ids. edge_vertex_ids vs (es ! (p - k)) = Inr ids \<and> is_permutation vids ids)"
  using assms
proof (induction es arbitrary: k)
  case Nil
  then show ?case by simp
next
  case (Cons e es)
  from Cons.prems obtain eids where eids: "edge_vertex_ids vs e = Inr eids"
    by (auto split: sum.splits)
  show ?case
  proof (cases "is_permutation vids eids")
    case True
    with Cons.prems eids show ?thesis by simp
  next
    case False
    with Cons.prems eids have rest: "find_edge vs vids es (Suc k) = Inr (Some p)"
      by simp
    from Cons.IH [OF rest] obtain ids where
      "Suc k \<le> p" "p < Suc k + length es"
      "edge_vertex_ids vs (es ! (p - Suc k)) = Inr ids" "is_permutation vids ids"
      by blast
    moreover from \<open>Suc k \<le> p\<close> have "(e # es) ! (p - k) = es ! (p - Suc k)"
      by (metis Suc_diff_Suc Suc_le_lessD nth_Cons_Suc)
    ultimately show ?thesis
      by auto
  qed
qed

lemma find_edge_None:
  assumes "find_edge vs vids es k = Inr None" and "j < length es"
  shows "\<exists>ids. edge_vertex_ids vs (es ! j) = Inr ids \<and> \<not> is_permutation vids ids"
  using assms
proof (induction es arbitrary: k j)
  case Nil
  then show ?case by simp
next
  case (Cons e es)
  from Cons.prems(1) obtain eids where eids: "edge_vertex_ids vs e = Inr eids"
    and no: "\<not> is_permutation vids eids"
    and rest: "find_edge vs vids es (Suc k) = Inr None"
    by (auto split: sum.splits if_splits)
  show ?case
  proof (cases j)
    case 0
    with eids no show ?thesis by simp
  next
    case (Suc i)
    with Cons.prems(2) have "i < length es" by simp
    from Cons.IH [OF rest this] Suc show ?thesis by simp
  qed
qed

lemma find_edge_append_new:
  assumes "find_edge vs vids es k = Inr None"
    and "edge_vertex_ids vs e = Inr ids" and "is_permutation vids ids"
  shows "find_edge vs vids (es @ [e]) k = Inr (Some (k + length es))"
  using assms
proof (induction es arbitrary: k)
  case Nil
  then show ?case by simp
next
  case (Cons f es)
  from Cons.prems(1) obtain fids where fids: "edge_vertex_ids vs f = Inr fids"
    and no: "\<not> is_permutation vids fids"
    and rest: "find_edge vs vids es (Suc k) = Inr None"
    by (auto split: sum.splits if_splits)
  from Cons.IH [OF rest Cons.prems(2,3)] fids no show ?case
    by simp
qed

lemma createUniqueEdge_Inr:
  assumes "createUniqueEdge vertexOne vertexTwo m = Inr (m', e)"
  shows "vertexOne < length (mesh_vertices m) \<and> vertexTwo < length (mesh_vertices m)
       \<and> has_vertex_ids m'
            [vertex_id (mesh_vertices m ! vertexOne), vertex_id (mesh_vertices m ! vertexTwo)] e
       \<and> (if \<exists>j. has_vertex_ids m
              [vertex_id (mesh_vertices m ! vertexOne), vertex_id (mesh_vertices m ! vertexTwo)] j
          then m' = m \<and> e < length (mesh_edges m)
          else mesh_edges m' = mesh_edges m @ [mesh_edges m' ! e]
             \<and> e = length (mesh_edges m)
             \<and> edge_vertices (mesh_edges m' ! e) = (vertexOne, vertexTwo)
             \<and> mesh_vertices m' = mesh_vertices m)
       \<and> createUniqueEdge vertexOne vertexTwo m' = Inr (m', e)"
proof -
  let ?vs = "mesh_vertices m"
  let ?vids = "[vertex_id (?vs ! vertexOne), vertex_id (?vs ! vertexTwo)]"
  from assms have v1: "vertexOne < length ?vs" and v2: "vertexTwo < length ?vs"
    by (auto simp: createUniqueEdge_def vertex_at_def split: if_splits)
  from assms v1 v2 obtain pos where
    found: "find_edge ?vs ?vids (mesh_edges m) 0 = Inr pos"
    by (auto simp: createUniqueEdge_def vertex_at_def split: sum.splits)
  show ?thesis
  proof (cases pos)
    case (Some p)
    with assms found v1 v2 have same: "m' = m" and e: "e = p"
      by (auto simp: createUniqueEdge_def vertex_at_def)
    from find_edge_Some [OF found [unfolded Some]] obtain ids where
      p: "p < length (mesh_edges m)"
      and ids: "edge_vertex_ids ?vs (mesh_edges m ! p) = Inr ids"
      and perm: "is_permutation ?vids ids"
      by auto
    then have has: "has_vertex_ids m ?vids p"
      by (simp add: has_vertex_ids_def)
    then have "\<exists>j. has_vertex_ids m ?vids j" ..
    with has same e p v1 v2 assms show ?thesis
      by simp
  next
    case None
    have none: "\<not> (\<exists>j. has_vertex_ids m ?vids j)"
    proof
      assume "\<exists>j. has_vertex_ids m ?vids j"
      then obtain j where j: "j < length (mesh_edges m)"
        and yes: "case edge_vertex_ids ?vs (mesh_edges m ! j) of
                    Inl err \<Rightarrow> False | Inr ids \<Rightarrow> is_permutation ?vids ids"
        by (auto simp: has_vertex_ids_def)
      from find_edge_None [OF found [unfolded None] j] yes show False
        by auto
    qed
    from assms found None v1 v2 have "createEdge vertexOne vertexTwo m = (m', e)"
      by (simp add: createUniqueEdge_def vertex_at_def)
    then have m': "m' = fst (createEdge vertexOne vertexTwo m)"
      and e: "e = length (mesh_edges m)"
      using createEdge_simps(2) [of vertexOne vertexTwo m] by auto
    let ?new = "Edge_ctor vertexOne vertexTwo (mesh_manageEdgeIDs m) (mesh_dimensions m)"
    have edges: "mesh_edges m' = mesh_edges m @ [?new]"
      and vs: "mesh_vertices m' = ?vs"
      by (simp_all add: m' createEdge_simps)
    have new: "mesh_edges m' ! e = ?new"
      by (simp add: edges e)
    have new_ids: "edge_vertex_ids ?vs ?new = Inr ?vids"
      using v1 v2 by (simp add: edge_vertex_ids_def vertex_at_def Edge_ctor_def)
    have has: "has_vertex_ids m' ?vids e"
      using new_ids by (simp add: has_vertex_ids_def vs new) (simp add: edges e)
    have "find_edge ?vs ?vids (mesh_edges m @ [?new]) 0 = Inr (Some (0 + length (mesh_edges m)))"
      using found [unfolded None] new_ids is_permutation_same
      by (rule find_edge_append_new)
    then have again: "createUniqueEdge vertexOne vertexTwo m' = Inr (m', e)"
      using v1 v2 by (simp add: createUniqueEdge_def vertex_at_def vs edges e)
    from none has edges new e vs v1 v2 again show ?thesis
      by (simp add: Edge_ctor_def)
  qed
qed

lemma find_edge_total:
  assumes "\<forall>e \<in> set es. fst (edge_vertices e) < length vs \<and> snd (edge_vertices e) < length vs"
  shows "\<exists>r. find_edge vs vids es k = Inr r"
  using assms
proof (induction es arbitrary: k)
  case Nil
  then show ?case by simp
next
  case (Cons e es)
  then obtain eids where "edge_vertex_ids vs e = Inr eids"
    by (auto simp: edge_vertex_ids_def vertex_at_def)
  with Cons show ?case
    by (cases "is_permutation vids eids") auto
qed

lemma createUniqueEdge_total:
  assumes "vertexOne < length (mesh_vertices m)" and "vertexTwo < length (mesh_vertices m)"
    and "\<forall>e \<in> set (mesh_edges m). fst (edge_vertices e) < length (mesh_vertices m)
                                 \<and> snd (edge_vertices e) < length (mesh_vertices m)"
  shows "\<exists>m' e. createUniqueEdge vertexOne vertexTwo m = Inr (m', e)"
proof -
  from find_edge_total [OF assms(3)] obtain r where
    "find_edge (mesh_vertices m)
       [vertex_id (mesh_vertices m ! vertexOne), vertex_id (mesh_vertices m ! vertexTwo)]
       (mesh_edges m) 0 = Inr r"
    by blast
  with assms(1,2) show ?thesis
    by (cases r) (auto simp: createUniqueEdge_def vertex_at_def
        intro: prod.exhaust [of "createEdge vertexOne vertexTwo m"])
qed

text \<open>
  Claim C9. For a pair of vertices of a mesh (whose edges join vertices of the mesh),
  \<open>Mesh::createUniqueEdge\<close> returns an edge of the mesh whose two vertex ids are a
  permutation of the ids of the pair. If the mesh already has such an edge, the mesh is
  unchanged (in particular its number of edges) and the returned edge is one of its
  edges; otherwise exactly one new edge, between the two vertices, is appended and
  returned. A second call with the same pair returns the same edge and changes nothing.
\<close>

theorem createUniqueEdge_unique:
  assumes "vertexOne < length (mesh_vertices m)" and "vertexTwo < length (mesh_vertices m)"
    and "\<forall>e \<in> set (mesh_edges m). fst (edge_vertices e) < length (mesh_vertices m)
                                 \<and> snd (edge_vertices e) < length (mesh_vertices m)"
  shows "\<exists>m' e. createUniqueEdge vertexOne vertexTwo m = Inr (m', e)
       \<and> has_vertex_ids m'
            [vertex_id (mesh_vertices m ! vertexOne), vertex_id (mesh_vertices m ! vertexTwo)] e
       \<and> (if \<exists>j. has_vertex_ids m
              [vertex_id (mesh_vertices m ! vertexOne), vertex_id (mesh_vertices m ! vertexTwo)] j
          then m' = m \<and> e < length (mesh_edges m)
          else mesh_edges m' = mesh_edges m @ [mesh_edges m' ! e]
             \<and> e = length (mesh_edges m)
             \<and> edge_vertices (mesh_edges m' ! e) = (vertexOne, vertexTwo)
             \<and> mesh_vertices m' = mesh_vertices m)
       \<and> createUniqueEdge vertexOne vertexTwo m' = Inr (m', e)"
proof -
  from createUniqueEdge_total [OF assms] obtain m' e where
    "createUniqueEdge vertexOne vertexTwo m = Inr (m', e)"
    by blast
  from this createUniqueEdge_Inr [OF this] show ?thesis
    by blast
qed

theorem createUniqueEdge_unique_witness:
  "list_all (\<lambda>e. fst (edge_vertices e) < length (mesh_vertices example_triangle_mesh)
               \<and> snd (edge_vertices e) < length (mesh_vertices example_triangle_mesh))
     (mesh_edges example_triangle_mesh)
 \<and> createUniqueEdge 0 2 example_triangle_mesh = Inr (example_triangle_mesh, 2)
 \<and> has_vertex_ids example_triangle_mesh [0, 2] 2
 \<and> createUniqueEdge 0 3 example_triangle_mesh
      = Inr (fst (createEdge 0 3 example_triangle_mesh), 4)
 \<and> has_vertex_ids (fst (createEdge 0 3 example_triangle_mesh)) [0, 3] 4
 \<and> createUniqueEdge 0 3 (fst (createEdge 0 3 example_triangle_mesh))
      = Inr (fst (createEdge 0 3 example_triangle_mesh), 4)"
proof -
  have wf: "\<forall>e \<in> set (mesh_edges example_triangle_mesh).
      fst (edge_vertices e) < length (mesh_vertices example_triangle_mesh)
    \<and> snd (edge_vertices e) < length (mesh_vertices example_triangle_mesh)"
    by (simp add: example_triangle_mesh_simps Edge_ctor_def)
  have v: "0 < length (mesh_vertices example_triangle_mesh)"
    "2 < length (mesh_vertices example_triangle_mesh)"
    "3 < length (mesh_vertices example_triangle_mesh)"
    by (simp_all add: example_triangle_mesh_simps)
  have first: "createUniqueEdge 0 2 example_triangle_mesh = Inr (example_triangle_mesh, 2)"
    by (simp add: createUniqueEdge_def vertex_at_def edge_vertex_ids_def
        example_triangle_mesh_simps Edge_ctor_def Vertex_ctor_def)
  have second: "createUniqueEdge 0 3 example_triangle_mesh
      = Inr (fst (createEdge 0 3 example_triangle_mesh), 4)"
    by (simp add: createUniqueEdge_def vertex_at_def edge_vertex_ids_def
        example_triangle_mesh_simps Edge_ctor_def Vertex_ctor_def createEdge_simps
        prod_eq_iff)
  from createUniqueEdge_unique [OF v(1,2) wf] first
  have "has_vertex_ids example_triangle_mesh [0, 2] 2"
    by (simp add: example_triangle_mesh_simps Vertex_ctor_def)
  moreover from createUniqueEdge_unique [OF v(1,3) wf] second
  have "has_vertex_ids (fst (createEdge 0 3 example_triangle_mesh)) [0, 3] 4
      \<and> createUniqueEdge 0 3 (fst (createEdge 0 3 example_triangle_mesh))
          = Inr (fst (createEdge 0 3 example_triangle_mesh), 4)"
    by (simp add: example_triangle_mesh_simps Vertex_ctor_def)
  ultimately show ?thesis
    using wf first second by (simp add: list_all_iff)
qed

section \<open>Adding a mesh\<close>

lemma update_vertex_last:
  assumes "mesh_vertices m = vs @ [c]"
  shows "mesh_vertices (update_vertex (length vs) f m) = vs @ [f c]"
  using assms by (simp add: update_vertex_def)

lemma addMesh_vertices_step:
  assumes "createVertex (vertex_coords vertex) m = Inr (m1, v)"
  shows "\<exists>x. mesh_vertices
           (update_vertex v (setOwner (vertex_owner vertex))
              (if vertex_tagged vertex
               then update_vertex v tag
                      (update_vertex v (setGlobalIndex (vertex_globalIndex vertex)) m1)
               else update_vertex v (setGlobalIndex (vertex_globalIndex vertex)) m1))
           = mesh_vertices m @ [x]
        \<and> vertex_coords x = vertex_coords vertex
        \<and> vertex_globalIndex x = vertex_globalIndex vertex
        \<and> vertex_owner x = vertex_owner vertex
        \<and> vertex_tagged x = vertex_tagged vertex
        \<and> vertex_id x = mesh_manageVertexIDs m"
proof -
  let ?c = "Vertex_ctor (vertex_coords vertex) (mesh_manageVertexIDs m)"
  from createVertex_Inr(1,2) [OF assms] have v: "v = length (mesh_vertices m)"
    and m1: "mesh_vertices m1 = mesh_vertices m @ [?c]"
    by simp_all
  let ?m2 = "update_vertex v (setGlobalIndex (vertex_globalIndex vertex)) m1"
  have m2: "mesh_vertices ?m2 = mesh_vertices m @ [setGlobalIndex (vertex_globalIndex vertex) ?c]"
    unfolding v using m1 by (rule update_vertex_last)
  show ?thesis
  proof (cases "vertex_tagged vertex")
    case True
    have "mesh_vertices (update_vertex v tag ?m2)
        = mesh_vertices m @ [tag (setGlobalIndex (vertex_globalIndex vertex) ?c)]"
      unfolding v using m2 [unfolded v] by (rule update_vertex_last)
    then have "mesh_vertices (update_vertex v (setOwner (vertex_owner vertex))
                 (update_vertex v tag ?m2))
        = mesh_vertices m @ [setOwner (vertex_owner vertex)
             (tag (setGlobalIndex (vertex_globalIndex vertex) ?c))]"
      unfolding v by (rule update_vertex_last)
    with True show ?thesis
      by (simp add: setOwner_def tag_def setGlobalIndex_def Vertex_ctor_def)
  next
    case False
    have "mesh_vertices (update_vertex v (setOwner (vertex_owner vertex)) ?m2)
        = mesh_vertices m @ [setOwner (vertex_owner vertex)
             (setGlobalIndex (vertex_globalIndex vertex) ?c)]"
      unfolding v using m2 [unfolded v] by (rule update_vertex_last)
    with False show ?thesis
      by (simp add: setOwner_def setGlobalIndex_def Vertex_ctor_def)
  qed
qed

lemma addMesh_vertices_copies:
  assumes "addMesh_vertices dvs m vertexMap = Inr (m', vertexMap')"
  shows "\<exists>new. mesh_vertices m' = mesh_vertices m @ new
        \<and> map vertex_coords new = map vertex_coords dvs
        \<and> map vertex_globalIndex new = map vertex_globalIndex dvs
        \<and> map vertex_owner new = map vertex_owner dvs
        \<and> map vertex_tagged new = map vertex_tagged dvs"
  using assms
proof (induction dvs arbitrary: m vertexMap)
  case Nil
  then show ?case by simp
next
  case (Cons vertex rest)
  from Cons.prems obtain m1 v where
    cv: "createVertex (vertex_coords vertex) m = Inr (m1, v)"
    by (auto split: sum.splits)
  let ?m2 = "update_vertex v (setGlobalIndex (vertex_globalIndex vertex)) m1"
  let ?m3 = "if vertex_tagged vertex then update_vertex v tag ?m2 else ?m2"
  let ?m4 = "update_vertex v (setOwner (vertex_owner vertex)) ?m3"
  from Cons.prems cv have
    rest: "addMesh_vertices rest ?m4 (vertexMap(vertex_id vertex \<mapsto> v)) = Inr (m', vertexMap')"
    by (simp add: Let_def split: if_splits)
  from addMesh_vertices_step [OF cv] obtain x where
    m4: "mesh_vertices ?m4 = mesh_vertices m @ [x]"
    and x: "vertex_coords x = vertex_coords vertex"
      "vertex_globalIndex x = vertex_globalIndex vertex"
      "vertex_owner x = vertex_owner vertex" "vertex_tagged x = vertex_tagged vertex"
    by blast
  from Cons.IH [OF rest] obtain new where
    new: "mesh_vertices m' = mesh_vertices ?m4 @ new"
    "map vertex_coords new = map vertex_coords rest"
    "map vertex_globalIndex new = map vertex_globalIndex rest"
    "map vertex_owner new = map vertex_owner rest"
    "map vertex_tagged new = map vertex_tagged rest"
    by blast
  have "mesh_vertices m' = mesh_vertices m @ (x # new)"
    using new(1) m4 by simp
  moreover have "map vertex_coords (x # new) = map vertex_coords (vertex # rest)"
    "map vertex_globalIndex (x # new) = map vertex_globalIndex (vertex # rest)"
    "map vertex_owner (x # new) = map vertex_owner (vertex # rest)"
    "map vertex_tagged (x # new) = map vertex_tagged (vertex # rest)"
    using x new(2-5) by simp_all
  ultimately show ?case
    by blast
qed

lemma addMesh_vertices_map:
  assumes "addMesh_vertices dvs m vertexMap = Inr (m', vertexMap')"
    and "distinct (map vertex_id dvs)"
  shows "(\<forall>i < length dvs.
            vertexMap' (vertex_id (dvs ! i)) = Some (length (mesh_vertices m) + i))
       \<and> (\<forall>x. x \<notin> vertex_id ` set dvs \<longrightarrow> vertexMap' x = vertexMap x)"
  using assms
proof (induction dvs arbitrary: m vertexMap)
  case Nil
  then show ?case by simp
next
  case (Cons vertex rest)
  from Cons.prems(1) obtain m1 v where
    cv: "createVertex (vertex_coords vertex) m = Inr (m1, v)"
    by (auto split: sum.splits)
  let ?m2 = "update_vertex v (setGlobalIndex (vertex_globalIndex vertex)) m1"
  let ?m3 = "if vertex_tagged vertex then update_vertex v tag ?m2 else ?m2"
  let ?m4 = "update_vertex v (setOwner (vertex_owner vertex)) ?m3"
  from Cons.prems(1) cv have
    rest: "addMesh_vertices rest ?m4 (vertexMap(vertex_id vertex \<mapsto> v)) = Inr (m', vertexMap')"
    by (simp add: Let_def split: if_splits)
  from createVertex_Inr(1) [OF cv] have v: "v = length (mesh_vertices m)" .
  from addMesh_vertices_step [OF cv] have
    len: "length (mesh_vertices ?m4) = Suc (length (mesh_vertices m))"
    by auto
  from Cons.prems(2) have dist: "distinct (map vertex_id rest)"
    and fresh: "vertex_id vertex \<notin> vertex_id ` set rest"
    by simp_all
  from Cons.IH [OF rest dist] have
    ih1: "\<forall>i < length rest.
            vertexMap' (vertex_id (rest ! i)) = Some (length (mesh_vertices ?m4) + i)"
    and ih2: "\<forall>x. x \<notin> vertex_id ` set rest
            \<longrightarrow> vertexMap' x = (vertexMap(vertex_id vertex \<mapsto> v)) x"
    by blast+
  have "vertexMap' (vertex_id ((vertex # rest) ! i)) = Some (length (mesh_vertices m) + i)"
    if "i < length (vertex # rest)" for i
  proof (cases i)
    case 0
    with ih2 fresh v show ?thesis by simp
  next
    case (Suc j)
    with that have "j < length rest" by simp
    with ih1 len Suc show ?thesis by simp
  qed
  moreover have "vertexMap' x = vertexMap x" if "x \<notin> vertex_id ` set (vertex # rest)" for x
    using that ih2 by simp
  ultimately show ?case
    by blast
qed

lemma addMesh_edges_copies:
  assumes "addMesh_edges dvs vertexMap des m edgeMap = Inr (m', edgeMap')"
  shows "\<exists>new. mesh_edges m' = mesh_edges m @ new \<and> length new = length des
        \<and> (\<forall>k < length des. \<exists>a b. edge_vertex_ids dvs (des ! k) = Inr [a, b]
              \<and> vertexMap a = Some (fst (edge_vertices (new ! k)))
              \<and> vertexMap b = Some (snd (edge_vertices (new ! k))))"
  using assms
proof (induction des arbitrary: m edgeMap)
  case Nil
  then show ?case by simp
next
  case (Cons edge rest)
  from Cons.prems obtain vids p q where
    vids: "edge_vertex_ids dvs edge = Inr vids"
    and p: "vertexMap (vids ! 0) = Some p" and q: "vertexMap (vids ! 1) = Some q"
    and rest: "addMesh_edges dvs vertexMap rest (fst (createEdge p q m))
             (edgeMap(edge_id edge \<mapsto> snd (createEdge p q m))) = Inr (m', edgeMap')"
    by (auto split: sum.splits option.splits)
  from vids obtain a b where ab: "vids = [a, b]"
    by (auto simp: edge_vertex_ids_def split: sum.splits)
  let ?e = "Edge_ctor p q (mesh_manageEdgeIDs m) (mesh_dimensions m)"
  from Cons.IH [OF rest] obtain new where
    new: "mesh_edges m' = (mesh_edges m @ [?e]) @ new" "length new = length rest"
    and ends: "\<forall>k < length rest. \<exists>a b. edge_vertex_ids dvs (rest ! k) = Inr [a, b]
              \<and> vertexMap a = Some (fst (edge_vertices (new ! k)))
              \<and> vertexMap b = Some (snd (edge_vertices (new ! k)))"
    by (auto simp: createEdge_simps)
  have "\<exists>a b. edge_vertex_ids dvs ((edge # rest) ! k) = Inr [a, b]
              \<and> vertexMap a = Some (fst (edge_vertices ((?e # new) ! k)))
              \<and> vertexMap b = Some (snd (edge_vertices ((?e # new) ! k)))"
    if "k < length (edge # rest)" for k
  proof (cases k)
    case 0
    with vids ab p q show ?thesis
      by (simp add: Edge_ctor_def)
  next
    case (Suc j)
    with that have "j < length rest" by simp
    with ends Suc show ?thesis by simp
  qed
  moreover have "mesh_edges m' = mesh_edges m @ (?e # new)"
    using new(1) by simp
  moreover have "length (?e # new) = length (edge # rest)"
    using new(2) by simp
  ultimately show ?case
    by blast
qed

lemma addMesh_edges_map:
  assumes "addMesh_edges dvs vertexMap des m edgeMap = Inr (m', edgeMap')"
    and "distinct (map edge_id des)"
  shows "(\<forall>k < length des. edgeMap' (edge_id (des ! k)) = Some (length (mesh_edges m) + k))
       \<and> (\<forall>x. x \<notin> edge_id ` set des \<longrightarrow> edgeMap' x = edgeMap x)"
  using assms
proof (induction des arbitrary: m edgeMap)
  case Nil
  then show ?case by simp
next
  case (Cons edge rest)
  from Cons.prems(1) obtain p q where
    rest: "addMesh_edges dvs vertexMap rest (fst (createEdge p q m))
             (edgeMap(edge_id edge \<mapsto> snd (createEdge p q m))) = Inr (m', edgeMap')"
    by (auto split: sum.splits option.splits)
  from Cons.prems(2) have dist: "distinct (map edge_id rest)"
    and fresh: "edge_id edge \<notin> edge_id ` set rest"
    by simp_all
  from Cons.IH [OF rest dist] have
    ih1: "\<forall>k < length rest.
            edgeMap' (edge_id (rest ! k)) = Some (Suc (length (mesh_edges m)) + k)"
    and ih2: "\<forall>x. x \<notin> edge_id ` set rest
            \<longrightarrow> edgeMap' x = (edgeMap(edge_id edge \<mapsto> length (mesh_edges m))) x"
    by (simp_all add: createEdge_simps)
  have "edgeMap' (edge_id ((edge # rest) ! k)) = Some (length (mesh_edges m) + k)"
    if "k < length (edge # rest)" for k
  proof (cases k)
    case 0
    with ih2 fresh show ?thesis by simp
  next
    case (Suc j)
    with that have "j < length rest" by simp
    with ih1 Suc show ?thesis by simp
  qed
  moreover have "edgeMap' x = edgeMap x" if "x \<notin> edge_id ` set (edge # rest)" for x
    using that ih2 by simp
  ultimately show ?case
    by blast
qed

lemma addMesh_triangles_edges:
  assumes "addMesh_triangles des edgeMap dts m = Inr m'"
  shows "\<exists>new. mesh_triangles m' = mesh_triangles m @ new \<and> length new = length dts
        \<and> (\<forall>k < length dts. \<exists>a b c. triangle_edge_ids des (dts ! k) = Inr (a, b, c)
              \<and> edgeMap a = Some (fst (triangle_edges (new ! k)))
              \<and> edgeMap b = Some (fst (snd (triangle_edges (new ! k))))
              \<and> edgeMap c = Some (snd (snd (triangle_edges (new ! k)))))"
  using assms
proof (induction dts arbitrary: m)
  case Nil
  then show ?case by simp
next
  case (Cons triangle rest)
  from Cons.prems obtain i1 i2 i3 a b c m1 t where
    ids: "triangle_edge_ids des triangle = Inr (i1, i2, i3)"
    and maps: "edgeMap i1 = Some a" "edgeMap i2 = Some b" "edgeMap i3 = Some c"
    and ct: "createTriangle a b c m = Inr (m1, t)"
    and rest: "addMesh_triangles des edgeMap rest m1 = Inr m'"
    by (auto split: sum.splits option.splits prod.splits)
  let ?t = "Triangle_ctor a b c (mesh_manageTriangleIDs m)"
  from Cons.IH [OF rest] createTriangle_Inr(2) [OF ct] obtain new where
    new: "mesh_triangles m' = (mesh_triangles m @ [?t]) @ new" "length new = length rest"
    and ends: "\<forall>k < length rest. \<exists>a b c. triangle_edge_ids des (rest ! k) = Inr (a, b, c)
              \<and> edgeMap a = Some (fst (triangle_edges (new ! k)))
              \<and> edgeMap b = Some (fst (snd (triangle_edges (new ! k))))
              \<and> edgeMap c = Some (snd (snd (triangle_edges (new ! k))))"
    by auto
  have "\<exists>a b c. triangle_edge_ids des ((triangle # rest) ! k) = Inr (a, b, c)
              \<and> edgeMap a = Some (fst (triangle_edges ((?t # new) ! k)))
              \<and> edgeMap b = Some (fst (snd (triangle_edges ((?t # new) ! k))))
              \<and> edgeMap c = Some (snd (snd (triangle_edges ((?t # new) ! k))))"
    if "k < length (triangle # rest)" for k
  proof (cases k)
    case 0
    with ids maps show ?thesis
      by (simp add: Triangle_ctor_def)
  next
    case (Suc j)
    with that have "j < length rest" by simp
    with ends Suc show ?thesis by simp
  qed
  moreover have "mesh_triangles m' = mesh_triangles m @ (?t # new)"
    using new(1) by simp
  moreover have "length (?t # new) = length (triangle # rest)"
    using new(2) by simp
  ultimately show ?case
    by blast
qed

lemma triangle_edge_ids_Inr:
  assumes "triangle_edge_ids des t = Inr (a, b, c)"
  shows "fst (triangle_edges t) < length des" and "fst (snd (triangle_edges t)) < length des"
    and "snd (snd (triangle_edges t)) < length des"
    and "a = edge_id (des ! fst (triangle_edges t))"
    and "b = edge_id (des ! fst (snd (triangle_edges t)))"
    and "c = edge_id (des ! snd (snd (triangle_edges t)))"
  using assms
  by (auto simp: triangle_edge_ids_def edge_at_def split: if_splits)

lemma edge_vertex_ids_Inr:
  assumes "edge_vertex_ids vs e = Inr [a, b]"
  shows "fst (edge_vertices e) < length vs" and "snd (edge_vertices e) < length vs"
    and "a = vertex_id (vs ! fst (edge_vertices e))"
    and "b = vertex_id (vs ! snd (edge_vertices e))"
  using assms
  by (auto simp: edge_vertex_ids_def vertex_at_def split: if_splits)

text \<open>
  Claim C10. \<open>Mesh::addMesh\<close> requires the two meshes to have the same dimensionality
  (an assertion fails otherwise). When it returns, the receiving mesh has, after its own
  vertices, one copy of every vertex of the delta mesh, in order, with the same
  coordinates, global index, owner flag and tagged flag; after its own edges, one copy of
  every edge of the delta mesh, in order, which, when the vertex ids of the delta mesh are
  distinct, joins the copies of the two vertices of the original; one new triangle for
  every triangle of the delta mesh when the mesh is three-dimensional (on the copies of
  the three edges of the original, when the edge ids of the delta mesh are distinct), and
  the same triangles as before otherwise; and the same quads as before, whatever quads
  the delta mesh has. The delta mesh is a mesh other than the receiving one.
\<close>

theorem addMesh_copies:
  "(mesh_dimensions m \<noteq> getDimensions deltaMesh
      \<longrightarrow> addMesh deltaMesh m = Inl AssertionFailed)
 \<and> (addMesh deltaMesh m = Inr m' \<longrightarrow>
      mesh_dimensions m = getDimensions deltaMesh
    \<and> (\<exists>new. mesh_vertices m' = mesh_vertices m @ new
          \<and> map vertex_coords new = map vertex_coords (mesh_vertices deltaMesh)
          \<and> map vertex_globalIndex new = map vertex_globalIndex (mesh_vertices deltaMesh)
          \<and> map vertex_owner new = map vertex_owner (mesh_vertices deltaMesh)
          \<and> map vertex_tagged new = map vertex_tagged (mesh_vertices deltaMesh))
    \<and> (\<exists>new. mesh_edges m' = mesh_edges m @ new
          \<and> length new = length (mesh_edges deltaMesh)
          \<and> (distinct (map vertex_id (mesh_vertices deltaMesh)) \<longrightarrow>
               (\<forall>k < length (mesh_edges deltaMesh).
                  edge_vertices (new ! k) =
                    (length (mesh_vertices m) + fst (edge_vertices (mesh_edges deltaMesh ! k)),
                     length (mesh_vertices m) + snd (edge_vertices (mesh_edges deltaMesh ! k))))))
    \<and> (if mesh_dimensions m = 3
        then \<exists>new. mesh_triangles m' = mesh_triangles m @ new
               \<and> length new = length (mesh_triangles deltaMesh)
               \<and> (distinct (map edge_id (mesh_edges deltaMesh)) \<longrightarrow>
                    (\<forall>k < length (mesh_triangles deltaMesh).
                       triangle_edges (new ! k) =
                         (length (mesh_edges m)
                            + fst (triangle_edges (mesh_triangles deltaMesh ! k)),
                          length (mesh_edges m)
                            + fst (snd (triangle_edges (mesh_triangles deltaMesh ! k))),
                          length (mesh_edges m)
                            + snd (snd (triangle_edges (mesh_triangles deltaMesh ! k))))))
        else mesh_triangles m' = mesh_triangles m)
    \<and> mesh_quads m' = mesh_quads m)"
proof (intro conjI impI)
  assume "mesh_dimensions m \<noteq> getDimensions deltaMesh"
  then show "addMesh deltaMesh m = Inl AssertionFailed"
    by (simp add: addMesh_def)
next
  assume ok: "addMesh deltaMesh m = Inr m'"
  let ?dvs = "mesh_vertices deltaMesh" and ?des = "mesh_edges deltaMesh"
  from addMesh_Inr [OF ok] obtain m1 vertexMap m2 edgeMap where
    dims: "mesh_dimensions m = mesh_dimensions deltaMesh"
    and v: "addMesh_vertices ?dvs m Map.empty = Inr (m1, vertexMap)"
    and e: "addMesh_edges ?dvs vertexMap ?des m1 Map.empty = Inr (m2, edgeMap)"
    and t: "if mesh_dimensions m2 = 3
        then addMesh_triangles ?des edgeMap (mesh_triangles deltaMesh) m2 = Inr m'
        else m' = m2"
    by blast
  note fv = addMesh_vertices_frame [OF v] and fe = addMesh_edges_frame [OF e]
  have ft: "mesh_vertices m' = mesh_vertices m2 \<and> mesh_edges m' = mesh_edges m2
          \<and> mesh_quads m' = mesh_quads m2"
    using t addMesh_triangles_frame by (cases "mesh_dimensions m2 = 3") auto
  from dims show "mesh_dimensions m = getDimensions deltaMesh"
    by (simp add: getDimensions_def)
  from addMesh_vertices_copies [OF v] ft fe
  show "\<exists>new. mesh_vertices m' = mesh_vertices m @ new
          \<and> map vertex_coords new = map vertex_coords ?dvs
          \<and> map vertex_globalIndex new = map vertex_globalIndex ?dvs
          \<and> map vertex_owner new = map vertex_owner ?dvs
          \<and> map vertex_tagged new = map vertex_tagged ?dvs"
    by simp
  from addMesh_edges_copies [OF e] obtain new where
    new: "mesh_edges m2 = mesh_edges m1 @ new" "length new = length ?des"
    and ends: "\<forall>k < length ?des. \<exists>a b. edge_vertex_ids ?dvs (?des ! k) = Inr [a, b]
              \<and> vertexMap a = Some (fst (edge_vertices (new ! k)))
              \<and> vertexMap b = Some (snd (edge_vertices (new ! k)))"
    by blast
  have "edge_vertices (new ! k) =
          (length (mesh_vertices m) + fst (edge_vertices (?des ! k)),
           length (mesh_vertices m) + snd (edge_vertices (?des ! k)))"
    if dist: "distinct (map vertex_id ?dvs)" and k: "k < length ?des" for k
  proof -
    from ends k obtain a b where ab: "edge_vertex_ids ?dvs (?des ! k) = Inr [a, b]"
      and a: "vertexMap a = Some (fst (edge_vertices (new ! k)))"
      and b: "vertexMap b = Some (snd (edge_vertices (new ! k)))"
      by blast
    note ids = edge_vertex_ids_Inr [OF ab]
    from addMesh_vertices_map [OF v dist] ids(1,2) have
      "vertexMap (vertex_id (?dvs ! fst (edge_vertices (?des ! k))))
         = Some (length (mesh_vertices m) + fst (edge_vertices (?des ! k)))"
      "vertexMap (vertex_id (?dvs ! snd (edge_vertices (?des ! k))))
         = Some (length (mesh_vertices m) + snd (edge_vertices (?des ! k)))"
      by blast+
    with a b ids(3,4) show ?thesis
      by (simp add: prod_eq_iff)
  qed
  with new ft fv
  show "\<exists>new. mesh_edges m' = mesh_edges m @ new
          \<and> length new = length ?des
          \<and> (distinct (map vertex_id ?dvs) \<longrightarrow>
               (\<forall>k < length ?des.
                  edge_vertices (new ! k) =
                    (length (mesh_vertices m) + fst (edge_vertices (?des ! k)),
                     length (mesh_vertices m) + snd (edge_vertices (?des ! k)))))"
    by auto
  show "if mesh_dimensions m = 3
        then \<exists>new. mesh_triangles m' = mesh_triangles m @ new
               \<and> length new = length (mesh_triangles deltaMesh)
               \<and> (distinct (map edge_id ?des) \<longrightarrow>
                    (\<forall>k < length (mesh_triangles deltaMesh).
                       triangle_edges (new ! k) =
                         (length (mesh_edges m)
                            + fst (triangle_edges (mesh_triangles deltaMesh ! k)),
                          length (mesh_edges m)
                            + fst (snd (triangle_edges (mesh_triangles deltaMesh ! k))),
                          length (mesh_edges m)
                            + snd (snd (triangle_edges (mesh_triangles deltaMesh ! k))))))
        else mesh_triangles m' = mesh_triangles m"
  proof (cases "mesh_dimensions m = 3")
    case True
    let ?dts = "mesh_triangles deltaMesh"
    from True fv fe t have "addMesh_triangles ?des edgeMap ?dts m2 = Inr m'"
      by simp
    from addMesh_triangles_edges [OF this] obtain newT where
      newT: "mesh_triangles m' = mesh_triangles m2 @ newT" "length newT = length ?dts"
      and sides: "\<forall>k < length ?dts. \<exists>a b c. triangle_edge_ids ?des (?dts ! k) = Inr (a, b, c)
              \<and> edgeMap a = Some (fst (triangle_edges (newT ! k)))
              \<and> edgeMap b = Some (fst (snd (triangle_edges (newT ! k))))
              \<and> edgeMap c = Some (snd (snd (triangle_edges (newT ! k))))"
      by blast
    have "triangle_edges (newT ! k) =
            (length (mesh_edges m) + fst (triangle_edges (?dts ! k)),
             length (mesh_edges m) + fst (snd (triangle_edges (?dts ! k))),
             length (mesh_edges m) + snd (snd (triangle_edges (?dts ! k))))"
      if dist: "distinct (map edge_id ?des)" and k: "k < length ?dts" for k
    proof -
      from sides k obtain a b c where
        abc: "triangle_edge_ids ?des (?dts ! k) = Inr (a, b, c)"
        and a: "edgeMap a = Some (fst (triangle_edges (newT ! k)))"
        and b: "edgeMap b = Some (fst (snd (triangle_edges (newT ! k))))"
        and c: "edgeMap c = Some (snd (snd (triangle_edges (newT ! k))))"
        by blast
      note ids = triangle_edge_ids_Inr [OF abc]
      from addMesh_edges_map [OF e dist] fv have
        pos: "\<forall>j < length ?des. edgeMap (edge_id (?des ! j)) = Some (length (mesh_edges m) + j)"
        by simp
      from pos ids(1) have "edgeMap (edge_id (?des ! fst (triangle_edges (?dts ! k))))
          = Some (length (mesh_edges m) + fst (triangle_edges (?dts ! k)))"
        by blast
      moreover from pos ids(2) have
        "edgeMap (edge_id (?des ! fst (snd (triangle_edges (?dts ! k)))))
          = Some (length (mesh_edges m) + fst (snd (triangle_edges (?dts ! k))))"
        by blast
      moreover from pos ids(3) have
        "edgeMap (edge_id (?des ! snd (snd (triangle_edges (?dts ! k)))))
          = Some (length (mesh_edges m) + snd (snd (triangle_edges (?dts ! k))))"
        by blast
      ultimately show ?thesis
        using a b c ids(4-6) by (simp add: prod_eq_iff)
    qed
    with newT fv fe True show ?thesis
      by auto
  next
    case False
    with fv fe t show ?thesis
      by simp
  qed
  from ft fv fe show "mesh_quads m' = mesh_quads m"
    by simp
qed

lemma example_delta_mesh_simps:
  "mesh_vertices example_delta_mesh =
     [setGlobalIndex 10 (Vertex_ctor [0, 0, 0] 0), tag (Vertex_ctor [1, 0, 0] 1),
      setOwner False (Vertex_ctor [0, 1, 0] 2), Vertex_ctor [5, 5, 5] 3, Vertex_ctor [6, 5, 5] 4]"
  "mesh_edges example_delta_mesh =
     [Edge_ctor 0 1 0 3, Edge_ctor 1 2 1 3, Edge_ctor 2 0 2 3, Edge_ctor 3 4 3 3]"
  "mesh_triangles example_delta_mesh = [Triangle_ctor 0 1 2 0]"
  "mesh_quads example_delta_mesh = [Quad_ctor 0 1 2 3 0]"
  "mesh_dimensions example_delta_mesh = 3"
  by (simp_all add: example_delta_mesh_def createQuad_def getFreeID_def
      example_triangle_mesh_simps)

lemma example_target_mesh_simps:
  "mesh_vertices example_target_mesh = [Vertex_ctor [9, 9, 9] 0]"
  "mesh_edges example_target_mesh = []"
  "mesh_triangles example_target_mesh = []"
  "mesh_quads example_target_mesh = []"
  "mesh_dimensions example_target_mesh = 3"
  "mesh_manageVertexIDs example_target_mesh = 1"
  "mesh_manageEdgeIDs example_target_mesh = 0"
  "mesh_manageTriangleIDs example_target_mesh = 0"
  by (simp_all add: example_target_mesh_def example_evaluation)

lemma example_addMesh:
  "addMesh example_delta_mesh example_target_mesh
     = Inr (projr (addMesh example_delta_mesh example_target_mesh))"
  by (simp add: addMesh_def getDimensions_def example_delta_mesh_simps example_target_mesh_simps
      createVertex_def getFreeID_def update_vertex_def Let_def edge_vertex_ids_def vertex_at_def
      Vertex_ctor_def Edge_ctor_def setGlobalIndex_def tag_def setOwner_def createEdge_def
      triangle_edge_ids_def edge_at_def Triangle_ctor_def createTriangle_def connectedTo_def)

theorem addMesh_copies_witness:
  "addMesh example_delta_mesh example_target_mesh
     = Inr (projr (addMesh example_delta_mesh example_target_mesh))
 \<and> length (mesh_quads example_delta_mesh) = 1
 \<and> mesh_quads (projr (addMesh example_delta_mesh example_target_mesh)) = []
 \<and> map vertex_tagged (mesh_vertices (projr (addMesh example_delta_mesh example_target_mesh)))
      = [False, False, True, False, False, False]
 \<and> map vertex_owner (mesh_vertices (projr (addMesh example_delta_mesh example_target_mesh)))
      = [True, True, True, False, True, True]
 \<and> map vertex_globalIndex (mesh_vertices (projr (addMesh example_delta_mesh example_target_mesh)))
      = [- 1, 10, - 1, - 1, - 1, - 1]
 \<and> length (mesh_edges (projr (addMesh example_delta_mesh example_target_mesh))) = 4
 \<and> edge_vertices (mesh_edges (projr (addMesh example_delta_mesh example_target_mesh)) ! 3)
      = (4, 5)
 \<and> length (mesh_triangles (projr (addMesh example_delta_mesh example_target_mesh))) = 1"
proof -
  let ?r = "projr (addMesh example_delta_mesh example_target_mesh)"
  have dist: "distinct (map vertex_id (mesh_vertices example_delta_mesh))"
    by (simp add: example_delta_mesh_simps Vertex_ctor_def setGlobalIndex_def tag_def
        setOwner_def)
  from addMesh_copies [of example_target_mesh example_delta_mesh ?r] example_addMesh
  obtain newV newE newT where
    "mesh_vertices ?r = mesh_vertices example_target_mesh @ newV"
    "map vertex_globalIndex newV = map vertex_globalIndex (mesh_vertices example_delta_mesh)"
    "map vertex_owner newV = map vertex_owner (mesh_vertices example_delta_mesh)"
    "map vertex_tagged newV = map vertex_tagged (mesh_vertices example_delta_mesh)"
    "mesh_edges ?r = mesh_edges example_target_mesh @ newE"
    "length newE = length (mesh_edges example_delta_mesh)"
    "distinct (map vertex_id (mesh_vertices example_delta_mesh)) \<longrightarrow>
               (\<forall>k < length (mesh_edges example_delta_mesh).
                  edge_vertices (newE ! k) =
                    (length (mesh_vertices example_target_mesh)
                       + fst (edge_vertices (mesh_edges example_delta_mesh ! k)),
                     length (mesh_vertices example_target_mesh)
                       + snd (edge_vertices (mesh_edges example_delta_mesh ! k))))"
    "mesh_triangles ?r = mesh_triangles example_target_mesh @ newT"
    "length newT = length (mesh_triangles example_delta_mesh)"
    "mesh_quads ?r = mesh_quads example_target_mesh"
    by (auto simp: example_target_mesh_simps)
  with dist example_addMesh show ?thesis
    by (simp add: example_delta_mesh_simps example_target_mesh_simps Vertex_ctor_def
        setGlobalIndex_def tag_def setOwner_def Edge_ctor_def)
qed

section \<open>Convexity of a quad\<close>

text \<open>
  Whatever the mesh and the ids given, a call that returns true leaves only array
  positions (0 to 3) in \<open>vertexIDs\<close>.
\<close>

lemma next_vertex_bound: "next_vertex coords currentVertex < 4"
  by (simp add: next_vertex_def Let_def)

lemma lowest_point_bound: "lowest_point coords < 4"
  by (simp add: lowest_point_def)

lemma hull_loop_positions:
  assumes "hull_loop coords idLowestPoint vertexIDs n currentVertex = Inr (vertexIDs', n')"
    and "currentVertex < 4" and "length vertexIDs = 4"
    and "\<forall>i < n. 0 \<le> vertexIDs ! i \<and> vertexIDs ! i < 4"
  shows "length vertexIDs' = 4 \<and> n' \<le> 4
       \<and> (\<forall>i < n'. 0 \<le> vertexIDs' ! i \<and> vertexIDs' ! i < 4)"
  using assms
proof (induction coords idLowestPoint vertexIDs n currentVertex rule: hull_loop.induct)
  case (1 coords idLowestPoint vertexIDs n currentVertex)
  from "1.prems"(1) have n: "n < 4"
    by (auto split: if_splits)
  let ?ids = "vertexIDs[n := int currentVertex]"
  let ?next = "next_vertex coords currentVertex"
  have inv: "\<forall>i < n + 1. 0 \<le> ?ids ! i \<and> ?ids ! i < 4"
    using "1.prems"(2-4) n by (auto simp: nth_list_update)
  have len: "length ?ids = 4"
    using "1.prems"(3) by simp
  show ?case
  proof (cases "?next \<noteq> idLowestPoint")
    case True
    with "1.prems"(1) n have
      rec: "hull_loop coords idLowestPoint ?ids (n + 1) ?next = Inr (vertexIDs', n')"
      by (simp add: Let_def)
    from "1.IH" [OF _ refl refl refl True rec next_vertex_bound len inv] n
    show ?thesis by simp
  next
    case False
    with "1.prems"(1) n have "vertexIDs' = ?ids" "n' = n + 1"
      by (simp_all add: Let_def)
    with inv len n show ?thesis by simp
  qed
qed

lemma computeQuadConvexityFromPoints_positions:
  assumes "computeQuadConvexityFromPoints m vertexIDs = Inr (True, vertexIDs')"
  shows "set vertexIDs' \<subseteq> {0, 1, 2, 3}"
proof -
  from assms obtain coords where
    loop: "hull_loop coords (lowest_point coords) vertexIDs 0 (lowest_point coords)
             = Inr (vertexIDs', 4)"
    and len: "length vertexIDs = 4"
    by (auto simp: computeQuadConvexityFromPoints_def split: if_splits sum.splits)
  from hull_loop_positions [OF loop lowest_point_bound len]
  have l: "length vertexIDs' = 4" and "\<forall>i < 4. 0 \<le> vertexIDs' ! i \<and> vertexIDs' ! i < 4"
    by simp_all
  then have "\<forall>i < length vertexIDs'. vertexIDs' ! i \<in> {0, 1, 2, 3}"
    by auto
  then show ?thesis
    by (auto simp: in_set_conv_nth)
qed

text \<open>
  Claim C2. \<open>Mesh::computeQuadConvexityFromPoints\<close> is given the ids of four vertices of the
  mesh, returns whether they form a convex quad, and on a true return leaves in the array
  the same four vertex ids, ordered along the convex hull. The code does not: the loop
  stores \<open>currentVertex\<close>, the position of the hull point within the array given, where the
  claim (and the name and the first use of the array) asks for the vertex id at that
  position. For the unit square with the vertex ids 4, 5, 6, 7 of the example mesh the
  function returns true and leaves 0, 3, 2, 1 in the array, the ids of four other vertices
  of that mesh. All coordinates of the example are small integers, on which the double
  arithmetic of the code is exact.
\<close>

theorem computeQuadConvexityFromPoints_stores_positions:
  "computeQuadConvexityFromPoints example_mesh [4, 5, 6, 7] = Inr (True, [0, 3, 2, 1])"
  by (simp add: computeQuadConvexityFromPoints_def example_mesh_def example_vertices_def
      Vertex_ctor_def distance_to_first_def coords_at_def difference3_def
      lowest_point_def coord_x_def coord_y_def next_vertex_def Let_def)

end
